theory Spec2Isabelle
  imports Main
begin

section \<open>Solidity contracts as functions\<close>

text \<open>
  The two contracts of the repository, \<^verbatim>\<open>WillsNFT\<close> (the registry,
  \<^verbatim>\<open>src/contracts/WillsNFT.sol\<close>) and \<^verbatim>\<open>WillExecutor\<close> (the execution engine,
  \<^verbatim>\<open>src/unnamed/part_001\<close>), are Solidity 0.8 programs. Their functions are embedded
  as HOL functions from a caller, a block timestamp, the arguments and the contract
  state to either an error or the state after the call.

  \<^item> An address is a natural number, \<open>0\<close> being \<^verbatim>\<open>address(0)\<close>; a \<^verbatim>\<open>uint256\<close> is a
    natural number, and every addition, multiplication and subtraction the source
    performs is checked as Solidity 0.8 checks it: leaving \<open>[0, 2^256)\<close> is the
    error \<open>Panic\<close>.
  \<^item> A Solidity \<^verbatim>\<open>mapping\<close> is a total function; an absent key reads as the default.
  \<^item> \<^verbatim>\<open>require(c, msg)\<close> is \<open>require c msg\<close>: the rest of the body runs when \<open>c\<close>
    holds and the call fails with \<open>Revert msg\<close> otherwise.
  \<^item> A call that fails changes nothing: \<open>transact\<close> (and \<open>transact_returning\<close>, for
    a function with a return value) is the boundary of a top-level call, returning the
    state before the call together with the error.
  \<^item> An external call that hands control to code outside the two contracts is the
    place where other calls can come in. The registry makes one such call in the middle
    of a function: \<^verbatim>\<open>createWill\<close> mints with \<^verbatim>\<open>_safeMint\<close>, which calls
    \<^verbatim>\<open>onERC721Received\<close> of a caller that is a contract before the will record is
    written. That call is part of the model: a creation carries the calls its receiver
    makes and the receiver's answer, and the \<^verbatim>\<open>nonReentrant\<close> guard of \<^verbatim>\<open>createWill\<close>
    is the flag \<open>entered\<close> under which those calls run. The token contracts and the
    recipients the engine pays are the ideal ones of the ledger below and never call
    back, so the engine's own guard is never found locked and is left out.
\<close>

type_synonym address = nat
type_synonym uint256 = nat

datatype error =
    Revert string         \<comment> \<open>\<^verbatim>\<open>Error(string)\<close>: a failed \<^verbatim>\<open>require\<close> or \<^verbatim>\<open>revert(msg)\<close>\<close>
  | Panic                 \<comment> \<open>checked arithmetic left the range of \<^verbatim>\<open>uint256\<close>\<close>
  | CustomError string    \<comment> \<open>a custom error of an imported library contract\<close>
  | CallFailed            \<comment> \<open>a value transfer that the ledger or the recipient refused\<close>

definition UINT256_MAX :: nat where
  "UINT256_MAX = 2 ^ 256 - 1"

definition require :: "bool \<Rightarrow> string \<Rightarrow> (error + 'a) \<Rightarrow> error + 'a" where
  "require c msg rest = (if c then rest else Inl (Revert msg))"

definition bind :: "error + 'a \<Rightarrow> ('a \<Rightarrow> error + 'b) \<Rightarrow> error + 'b" where
  "bind m f = (case m of Inl e \<Rightarrow> Inl e | Inr x \<Rightarrow> f x)"

definition checked_add :: "nat \<Rightarrow> nat \<Rightarrow> error + nat" where
  "checked_add a b = (if a + b \<le> UINT256_MAX then Inr (a + b) else Inl Panic)"

definition checked_mul :: "nat \<Rightarrow> nat \<Rightarrow> error + nat" where
  "checked_mul a b = (if a * b \<le> UINT256_MAX then Inr (a * b) else Inl Panic)"

definition checked_sub :: "nat \<Rightarrow> nat \<Rightarrow> error + nat" where
  "checked_sub a b = (if b \<le> a then Inr (a - b) else Inl Panic)"

definition transact :: "('s \<Rightarrow> error + 's) \<Rightarrow> 's \<Rightarrow> 's \<times> error option" where
  \<comment> \<open>a top-level call of a function that returns nothing: the state afterwards, and
      the error when it failed\<close>
  "transact f s = (case f s of Inl e \<Rightarrow> (s, Some e) | Inr s' \<Rightarrow> (s', None))"

definition transact_returning :: "('s \<Rightarrow> error + 's \<times> 'r) \<Rightarrow> 's \<Rightarrow> 's \<times> (error + 'r)" where
  \<comment> \<open>a top-level call of a function that returns a value\<close>
  "transact_returning f s = (case f s of Inl e \<Rightarrow> (s, Inl e) | Inr (s', r) \<Rightarrow> (s', Inr r))"

section \<open>The registry: WillsNFT\<close>

record WillData =
  ipfsHash :: string
  creator :: address
  executor :: address
  createdAt :: uint256
  lastUpdateAt :: uint256
  emergencyDelay :: uint256
  isExecuted :: bool
  authorizedViewers :: "address \<Rightarrow> bool"

datatype nft_event =
    WillCreated uint256 address string
  | WillExecuted uint256 address uint256
  | WillUpdated uint256 string
  | ExecutorUpdated uint256 address
  | EmergencyUpdated uint256 uint256

text \<open>
  The state of \<^verbatim>\<open>WillsNFT\<close>: its own storage (lines 19 and 41-43) and the storage of
  the OpenZeppelin contracts it inherits from (line 18). Those base contracts are
  imported (lines 4-7) and are not part of the repository; the fields \<open>owners\<close>,
  \<open>tokenApprovals\<close>, \<open>operatorApprovals\<close> (\<^verbatim>\<open>ERC721\<close>), \<open>tokenURIs\<close>
  (\<^verbatim>\<open>ERC721URIStorage\<close>) and \<open>contractOwner\<close> (\<^verbatim>\<open>Ownable\<close>) and the functions on them
  follow OpenZeppelin Contracts 5, the version whose \<^verbatim>\<open>_update(to, tokenId, auth)\<close> and
  \<^verbatim>\<open>Ownable(msg.sender)\<close> the source calls. The per-holder balance counter and the
  library's own events are left out: nothing in the repository reads them.
\<close>

record WillsNFT =
  tokenIdCounter :: uint256
  wills :: "uint256 \<Rightarrow> WillData"
  userWills :: "address \<Rightarrow> uint256 list"
  authorizedContracts :: "address \<Rightarrow> bool"
  owners :: "uint256 \<Rightarrow> address"
  tokenApprovals :: "uint256 \<Rightarrow> address"
  operatorApprovals :: "address \<Rightarrow> address \<Rightarrow> bool"
  tokenURIs :: "uint256 \<Rightarrow> string"
  contractOwner :: address
  nft_events :: "nft_event list"

definition MIN_EMERGENCY_DELAY :: uint256 where
  "MIN_EMERGENCY_DELAY = 30 * 86400"

definition MAX_EMERGENCY_DELAY :: uint256 where
  "MAX_EMERGENCY_DELAY = 365 * 86400"

definition empty_will :: WillData where
  "empty_will = \<lparr>ipfsHash = [], creator = 0, executor = 0, createdAt = 0, lastUpdateAt = 0,
     emergencyDelay = 0, isExecuted = False, authorizedViewers = (\<lambda>_. False)\<rparr>"

definition deploy_WillsNFT :: "address \<Rightarrow> WillsNFT" where
  \<comment> \<open>the constructor, lines 49-52: every mapping empty, the deployer owns the contract\<close>
  "deploy_WillsNFT deployer =
     \<lparr>tokenIdCounter = 0, wills = (\<lambda>_. empty_will), userWills = (\<lambda>_. []),
      authorizedContracts = (\<lambda>_. False), owners = (\<lambda>_. 0), tokenApprovals = (\<lambda>_. 0),
      operatorApprovals = (\<lambda>_ _. False), tokenURIs = (\<lambda>_. []), contractOwner = deployer,
      nft_events = []\<rparr>"

subsection \<open>The inherited ERC721 and Ownable functions\<close>

definition ownerExists :: "WillsNFT \<Rightarrow> uint256 \<Rightarrow> bool" where
  \<comment> \<open>\<^verbatim>\<open>_ownerExists\<close>, lines 378-380\<close>
  "ownerExists s tokenId = (owners s tokenId \<noteq> 0)"

definition ownerOf :: "WillsNFT \<Rightarrow> uint256 \<Rightarrow> error + address" where
  \<comment> \<open>\<^verbatim>\<open>ERC721.ownerOf\<close>: fails for a token that was never minted\<close>
  "ownerOf s tokenId =
     (if owners s tokenId = 0 then Inl (CustomError ''ERC721NonexistentToken'')
      else Inr (owners s tokenId))"

definition isAuthorized :: "WillsNFT \<Rightarrow> address \<Rightarrow> address \<Rightarrow> uint256 \<Rightarrow> bool" where
  \<comment> \<open>\<^verbatim>\<open>ERC721._isAuthorized(owner, spender, tokenId)\<close>\<close>
  "isAuthorized s holder spender tokenId =
     (spender \<noteq> 0 \<and>
      (holder = spender \<or> operatorApprovals s holder spender \<or> tokenApprovals s tokenId = spender))"

definition mint :: "address \<Rightarrow> uint256 \<Rightarrow> WillsNFT \<Rightarrow> error + WillsNFT" where
  \<comment> \<open>\<^verbatim>\<open>ERC721._mint(to, tokenId)\<close>, through the \<^verbatim>\<open>_update\<close> of lines 392-394: the
      first half of \<^verbatim>\<open>_safeMint\<close>\<close>
  "mint to tokenId s =
     (if to = 0 then Inl (CustomError ''ERC721InvalidReceiver'')
      else if owners s tokenId \<noteq> 0 then Inl (CustomError ''ERC721InvalidSender'')
      else Inr (s\<lparr>owners := (owners s)(tokenId := to)\<rparr>))"

definition receiver_answer :: "bool \<Rightarrow> 's \<Rightarrow> error + 's" where
  \<comment> \<open>the second half of \<^verbatim>\<open>_safeMint\<close>, \<^verbatim>\<open>checkOnERC721Received\<close>, once the receiver's
      \<^verbatim>\<open>onERC721Received\<close> has run and left the state \<open>s\<close>: the mint stands when the
      receiver returned the selector (or has no code, and was not called), and the call
      fails otherwise\<close>
  "receiver_answer accepted s =
     (if accepted then Inr s else Inl (CustomError ''ERC721InvalidReceiver''))"

definition safeMint ::
  "address \<Rightarrow> uint256 \<Rightarrow> (WillsNFT \<Rightarrow> error + WillsNFT) \<Rightarrow> WillsNFT \<Rightarrow> error + WillsNFT" where
  \<comment> \<open>\<^verbatim>\<open>ERC721._safeMint(to, tokenId)\<close>: the token is minted and then the receiver is
      called; \<open>onReceived\<close> is that call, from the state after the mint to the state the
      receiver's code leaves, or to the failure when it does not accept the token\<close>
  "safeMint to tokenId onReceived s = bind (mint to tokenId s) onReceived"

definition setTokenURI :: "uint256 \<Rightarrow> string \<Rightarrow> WillsNFT \<Rightarrow> WillsNFT" where
  \<comment> \<open>\<^verbatim>\<open>ERC721URIStorage._setTokenURI\<close>\<close>
  "setTokenURI tokenId uri s = s\<lparr>tokenURIs := (tokenURIs s)(tokenId := uri)\<rparr>"

definition transferFrom ::
  "address \<Rightarrow> address \<Rightarrow> address \<Rightarrow> uint256 \<Rightarrow> WillsNFT \<Rightarrow> error + WillsNFT" where
  \<comment> \<open>\<^verbatim>\<open>ERC721.transferFrom(from, to, tokenId)\<close>, through the \<^verbatim>\<open>_update\<close> of lines
      392-394, which forwards to the library's and adds no check of its own;
      \<^verbatim>\<open>safeTransferFrom\<close> has the same effect on the state when the receiver accepts,
      and calls the receiver as its last step, so that what the receiver does are calls
      that follow the transfer\<close>
  "transferFrom sender src dst tokenId s =
     (if dst = 0 then Inl (CustomError ''ERC721InvalidReceiver'')
      else if owners s tokenId = 0 then Inl (CustomError ''ERC721NonexistentToken'')
      else if \<not> isAuthorized s (owners s tokenId) sender tokenId
        then Inl (CustomError ''ERC721InsufficientApproval'')
      else if owners s tokenId \<noteq> src then Inl (CustomError ''ERC721IncorrectOwner'')
      else Inr (s\<lparr>owners := (owners s)(tokenId := dst),
                  tokenApprovals := (tokenApprovals s)(tokenId := 0)\<rparr>))"

definition approve :: "address \<Rightarrow> address \<Rightarrow> uint256 \<Rightarrow> WillsNFT \<Rightarrow> error + WillsNFT" where
  \<comment> \<open>\<^verbatim>\<open>ERC721.approve(to, tokenId)\<close>\<close>
  "approve sender spender tokenId s =
     (if owners s tokenId = 0 then Inl (CustomError ''ERC721NonexistentToken'')
      else if sender \<noteq> 0 \<and> owners s tokenId \<noteq> sender
              \<and> \<not> operatorApprovals s (owners s tokenId) sender
        then Inl (CustomError ''ERC721InvalidApprover'')
      else Inr (s\<lparr>tokenApprovals := (tokenApprovals s)(tokenId := spender)\<rparr>))"

definition setApprovalForAll :: "address \<Rightarrow> address \<Rightarrow> bool \<Rightarrow> WillsNFT \<Rightarrow> error + WillsNFT" where
  \<comment> \<open>\<^verbatim>\<open>ERC721.setApprovalForAll(operator, approved)\<close>\<close>
  "setApprovalForAll sender operator approved s =
     (if operator = 0 then Inl (CustomError ''ERC721InvalidOperator'')
      else Inr (s\<lparr>operatorApprovals :=
                    (operatorApprovals s)(sender := (operatorApprovals s sender)(operator := approved))\<rparr>))"

definition transferOwnership :: "address \<Rightarrow> address \<Rightarrow> WillsNFT \<Rightarrow> error + WillsNFT" where
  \<comment> \<open>\<^verbatim>\<open>Ownable.transferOwnership(newOwner)\<close>\<close>
  "transferOwnership sender newOwner s =
     (if contractOwner s \<noteq> sender then Inl (CustomError ''OwnableUnauthorizedAccount'')
      else if newOwner = 0 then Inl (CustomError ''OwnableInvalidOwner'')
      else Inr (s\<lparr>contractOwner := newOwner\<rparr>))"

definition renounceOwnership :: "address \<Rightarrow> WillsNFT \<Rightarrow> error + WillsNFT" where
  \<comment> \<open>\<^verbatim>\<open>Ownable.renounceOwnership()\<close>\<close>
  "renounceOwnership sender s =
     (if contractOwner s \<noteq> sender then Inl (CustomError ''OwnableUnauthorizedAccount'')
      else Inr (s\<lparr>contractOwner := 0\<rparr>))"

subsection \<open>The functions of WillsNFT.sol\<close>

text \<open>
  \<^verbatim>\<open>createWill\<close> hands control to its caller in the middle: line 78 mints the token with
  \<^verbatim>\<open>_safeMint\<close>, which calls the caller's \<^verbatim>\<open>onERC721Received\<close>, and only then do lines
  81-96 write the URI, the will record, the caller's list and the event. \<open>onReceived\<close>
  is that call of the receiver. The \<^verbatim>\<open>nonReentrant\<close> modifier of line 65 is applied
  where the function is called, in \<open>nft_body\<close> below.
\<close>

definition createWill ::
  "address \<Rightarrow> uint256 \<Rightarrow> string \<Rightarrow> address \<Rightarrow> uint256 \<Rightarrow> (WillsNFT \<Rightarrow> error + WillsNFT) \<Rightarrow> WillsNFT
     \<Rightarrow> error + WillsNFT \<times> uint256" where
  \<comment> \<open>lines 61-99; the value returned is the new token id\<close>
  "createWill sender now hash exec delay onReceived s =
     require (hash \<noteq> []) ''IPFS hash cannot be empty'' (
     require (exec \<noteq> 0) ''Executor cannot be zero address'' (
     require (exec \<noteq> sender) ''Cannot set self as executor'' (
     require (MIN_EMERGENCY_DELAY \<le> delay \<and> delay \<le> MAX_EMERGENCY_DELAY)
       ''Invalid emergency delay period'' (
     let tokenId = tokenIdCounter s in
     bind (checked_add (tokenIdCounter s) 1) (\<lambda>next_id.
     bind (safeMint sender tokenId onReceived (s\<lparr>tokenIdCounter := next_id\<rparr>)) (\<lambda>s1.
     let s2 = setTokenURI tokenId hash s1;
         s3 = s2\<lparr>wills := (wills s2)(tokenId := (wills s2 tokenId)
                 \<lparr>ipfsHash := hash, creator := sender, executor := exec, createdAt := now,
                  lastUpdateAt := now, emergencyDelay := delay, isExecuted := False\<rparr>)\<rparr>;
         s4 = s3\<lparr>userWills := (userWills s3)(sender := userWills s3 sender @ [tokenId])\<rparr>
     in Inr (s4\<lparr>nft_events := nft_events s4 @ [WillCreated tokenId sender hash]\<rparr>, tokenId)))))))"

text \<open>
  The two halves of \<^verbatim>\<open>createWill\<close>, before and after the call of the receiver. They are
  what the function does when the receiver's code acts on more than the registry, as it
  does in the world of both contracts below; \<open>createWill_halves\<close> shows that
  \<open>createWill\<close> is the first half, the receiver, and the second half.
\<close>

definition createWill_mint ::
  "address \<Rightarrow> string \<Rightarrow> address \<Rightarrow> uint256 \<Rightarrow> WillsNFT \<Rightarrow> error + WillsNFT \<times> uint256" where
  \<comment> \<open>lines 66-78, up to the call of the receiver: the checks, the counter and the mint\<close>
  "createWill_mint sender hash exec delay s =
     require (hash \<noteq> []) ''IPFS hash cannot be empty'' (
     require (exec \<noteq> 0) ''Executor cannot be zero address'' (
     require (exec \<noteq> sender) ''Cannot set self as executor'' (
     require (MIN_EMERGENCY_DELAY \<le> delay \<and> delay \<le> MAX_EMERGENCY_DELAY)
       ''Invalid emergency delay period'' (
     let tokenId = tokenIdCounter s in
     bind (checked_add (tokenIdCounter s) 1) (\<lambda>next_id.
     bind (mint sender tokenId (s\<lparr>tokenIdCounter := next_id\<rparr>)) (\<lambda>s1.
     Inr (s1, tokenId)))))))"

definition createWill_record ::
  "address \<Rightarrow> uint256 \<Rightarrow> uint256 \<Rightarrow> string \<Rightarrow> address \<Rightarrow> uint256 \<Rightarrow> WillsNFT \<Rightarrow> WillsNFT" where
  \<comment> \<open>lines 81-96, run in the state the receiver has left\<close>
  "createWill_record sender now tokenId hash exec delay s1 =
     (let s2 = setTokenURI tokenId hash s1;
          s3 = s2\<lparr>wills := (wills s2)(tokenId := (wills s2 tokenId)
                  \<lparr>ipfsHash := hash, creator := sender, executor := exec, createdAt := now,
                   lastUpdateAt := now, emergencyDelay := delay, isExecuted := False\<rparr>)\<rparr>;
          s4 = s3\<lparr>userWills := (userWills s3)(sender := userWills s3 sender @ [tokenId])\<rparr>
      in s4\<lparr>nft_events := nft_events s4 @ [WillCreated tokenId sender hash]\<rparr>)"

definition updateWill :: "address \<Rightarrow> uint256 \<Rightarrow> uint256 \<Rightarrow> string \<Rightarrow> WillsNFT \<Rightarrow> error + WillsNFT" where
  \<comment> \<open>lines 106-117\<close>
  "updateWill sender now tokenId newHash s =
     require (ownerExists s tokenId) ''Will does not exist'' (
     bind (ownerOf s tokenId) (\<lambda>holder.
     require (holder = sender) ''Only owner can update will'' (
     require (\<not> isExecuted (wills s tokenId)) ''Cannot update executed will'' (
     require (newHash \<noteq> []) ''IPFS hash cannot be empty'' (
     let s1 = s\<lparr>wills := (wills s)(tokenId := (wills s tokenId)
                 \<lparr>ipfsHash := newHash, lastUpdateAt := now\<rparr>)\<rparr>;
         s2 = setTokenURI tokenId newHash s1
     in Inr (s2\<lparr>nft_events := nft_events s2 @ [WillUpdated tokenId newHash]\<rparr>))))))"

definition updateExecutor :: "address \<Rightarrow> uint256 \<Rightarrow> uint256 \<Rightarrow> address \<Rightarrow> WillsNFT \<Rightarrow> error + WillsNFT" where
  \<comment> \<open>lines 124-135\<close>
  "updateExecutor sender now tokenId newExecutor s =
     require (ownerExists s tokenId) ''Will does not exist'' (
     bind (ownerOf s tokenId) (\<lambda>holder.
     require (holder = sender) ''Only owner can update executor'' (
     require (\<not> isExecuted (wills s tokenId)) ''Cannot update executed will'' (
     require (newExecutor \<noteq> 0) ''Executor cannot be zero address'' (
     require (newExecutor \<noteq> sender) ''Cannot set self as executor'' (
     let s1 = s\<lparr>wills := (wills s)(tokenId := (wills s tokenId)
                 \<lparr>executor := newExecutor, lastUpdateAt := now\<rparr>)\<rparr>
     in Inr (s1\<lparr>nft_events := nft_events s1 @ [ExecutorUpdated tokenId newExecutor]\<rparr>)))))))"

definition updateEmergencyDelay ::
  "address \<Rightarrow> uint256 \<Rightarrow> uint256 \<Rightarrow> uint256 \<Rightarrow> WillsNFT \<Rightarrow> error + WillsNFT" where
  \<comment> \<open>lines 142-155\<close>
  "updateEmergencyDelay sender now tokenId newDelay s =
     require (ownerExists s tokenId) ''Will does not exist'' (
     bind (ownerOf s tokenId) (\<lambda>holder.
     require (holder = sender) ''Only owner can update emergency delay'' (
     require (\<not> isExecuted (wills s tokenId)) ''Cannot update executed will'' (
     require (MIN_EMERGENCY_DELAY \<le> newDelay \<and> newDelay \<le> MAX_EMERGENCY_DELAY)
       ''Invalid emergency delay period'' (
     let s1 = s\<lparr>wills := (wills s)(tokenId := (wills s tokenId)
                 \<lparr>emergencyDelay := newDelay, lastUpdateAt := now\<rparr>)\<rparr>
     in Inr (s1\<lparr>nft_events := nft_events s1 @ [EmergencyUpdated tokenId newDelay]\<rparr>))))))"

definition mark_executed :: "uint256 \<Rightarrow> address \<Rightarrow> uint256 \<Rightarrow> WillsNFT \<Rightarrow> WillsNFT" where
  \<comment> \<open>the two statements that end all four execution functions:
      \<^verbatim>\<open>_wills[tokenId].isExecuted = true; emit WillExecuted(tokenId, who, block.timestamp)\<close>\<close>
  "mark_executed tokenId who now s =
     s\<lparr>wills := (wills s)(tokenId := (wills s tokenId)\<lparr>isExecuted := True\<rparr>),
       nft_events := nft_events s @ [WillExecuted tokenId who now]\<rparr>"

definition nft_executeWill :: "address \<Rightarrow> uint256 \<Rightarrow> uint256 \<Rightarrow> WillsNFT \<Rightarrow> error + WillsNFT" where
  \<comment> \<open>\<^verbatim>\<open>WillsNFT.executeWill\<close>, lines 161-169\<close>
  "nft_executeWill sender now tokenId s =
     require (ownerExists s tokenId) ''Will does not exist'' (
     require (executor (wills s tokenId) = sender) ''Only executor can execute will'' (
     require (\<not> isExecuted (wills s tokenId)) ''Will already executed'' (
     Inr (mark_executed tokenId sender now s))))"

definition emergency_deadline :: "WillsNFT \<Rightarrow> uint256 \<Rightarrow> error + uint256" where
  \<comment> \<open>\<^verbatim>\<open>_wills[tokenId].lastUpdateAt + _wills[tokenId].emergencyDelay\<close>, a checked sum\<close>
  "emergency_deadline s tokenId =
     checked_add (lastUpdateAt (wills s tokenId)) (emergencyDelay (wills s tokenId))"

definition nft_emergencyExecuteWill ::
  "address \<Rightarrow> uint256 \<Rightarrow> uint256 \<Rightarrow> WillsNFT \<Rightarrow> error + WillsNFT" where
  \<comment> \<open>\<^verbatim>\<open>WillsNFT.emergencyExecuteWill\<close>, lines 175-186\<close>
  "nft_emergencyExecuteWill sender now tokenId s =
     require (ownerExists s tokenId) ''Will does not exist'' (
     require (\<not> isExecuted (wills s tokenId)) ''Will already executed'' (
     bind (emergency_deadline s tokenId) (\<lambda>deadline.
     require (deadline \<le> now) ''Emergency delay period not met'' (
     Inr (mark_executed tokenId sender now s)))))"

definition authorizeViewer :: "address \<Rightarrow> uint256 \<Rightarrow> address \<Rightarrow> WillsNFT \<Rightarrow> error + WillsNFT" where
  \<comment> \<open>lines 193-199\<close>
  "authorizeViewer sender tokenId viewer s =
     require (ownerExists s tokenId) ''Will does not exist'' (
     bind (ownerOf s tokenId) (\<lambda>holder.
     require (holder = sender) ''Only owner can authorize viewers'' (
     require (viewer \<noteq> 0) ''Cannot authorize zero address'' (
     Inr (s\<lparr>wills := (wills s)(tokenId := (wills s tokenId)
            \<lparr>authorizedViewers := (authorizedViewers (wills s tokenId))(viewer := True)\<rparr>)\<rparr>)))))"

definition revokeViewer :: "address \<Rightarrow> uint256 \<Rightarrow> address \<Rightarrow> WillsNFT \<Rightarrow> error + WillsNFT" where
  \<comment> \<open>lines 206-211\<close>
  "revokeViewer sender tokenId viewer s =
     require (ownerExists s tokenId) ''Will does not exist'' (
     bind (ownerOf s tokenId) (\<lambda>holder.
     require (holder = sender) ''Only owner can revoke viewers'' (
     Inr (s\<lparr>wills := (wills s)(tokenId := (wills s tokenId)
            \<lparr>authorizedViewers := (authorizedViewers (wills s tokenId))(viewer := False)\<rparr>)\<rparr>))))"

definition getWillData ::
  "address \<Rightarrow> uint256 \<Rightarrow> WillsNFT \<Rightarrow>
     error + string \<times> address \<times> address \<times> uint256 \<times> uint256 \<times> uint256 \<times> bool" where
  \<comment> \<open>lines 226-253\<close>
  "getWillData sender tokenId s =
     require (ownerExists s tokenId) ''Will does not exist'' (
     bind (ownerOf s tokenId) (\<lambda>holder.
     require (holder = sender \<or> executor (wills s tokenId) = sender
              \<or> authorizedViewers (wills s tokenId) sender)
       ''Not authorized to view this will'' (
     let willData = wills s tokenId in
     Inr (ipfsHash willData, creator willData, executor willData, createdAt willData,
          lastUpdateAt willData, emergencyDelay willData, isExecuted willData))))"

definition isAuthorizedViewer :: "uint256 \<Rightarrow> address \<Rightarrow> WillsNFT \<Rightarrow> error + bool" where
  \<comment> \<open>lines 261-264\<close>
  "isAuthorizedViewer tokenId viewer s =
     require (ownerExists s tokenId) ''Will does not exist'' (
     Inr (authorizedViewers (wills s tokenId) viewer))"

definition getUserWills :: "address \<Rightarrow> WillsNFT \<Rightarrow> uint256 list" where
  \<comment> \<open>lines 271-273\<close>
  "getUserWills user s = userWills s user"

definition getNextTokenId :: "WillsNFT \<Rightarrow> uint256" where
  \<comment> \<open>lines 279-281\<close>
  "getNextTokenId s = tokenIdCounter s"

definition token_exists :: "uint256 \<Rightarrow> WillsNFT \<Rightarrow> bool" where
  \<comment> \<open>\<^verbatim>\<open>exists\<close>, lines 288-290\<close>
  "token_exists tokenId s = ownerExists s tokenId"

definition getExecutor :: "uint256 \<Rightarrow> WillsNFT \<Rightarrow> error + address" where
  \<comment> \<open>lines 297-300\<close>
  "getExecutor tokenId s =
     require (ownerExists s tokenId) ''Will does not exist'' (Inr (executor (wills s tokenId)))"

definition getIsExecuted :: "uint256 \<Rightarrow> WillsNFT \<Rightarrow> error + bool" where
  \<comment> \<open>lines 307-310\<close>
  "getIsExecuted tokenId s =
     require (ownerExists s tokenId) ''Will does not exist'' (Inr (isExecuted (wills s tokenId)))"

definition canEmergencyExecute :: "uint256 \<Rightarrow> uint256 \<Rightarrow> WillsNFT \<Rightarrow> error + bool" where
  \<comment> \<open>lines 317-322; a view function: it takes the block timestamp and the state and
      returns a value only\<close>
  "canEmergencyExecute now tokenId s =
     (if \<not> ownerExists s tokenId \<or> isExecuted (wills s tokenId) then Inr False
      else bind (emergency_deadline s tokenId) (\<lambda>deadline. Inr (deadline \<le> now)))"

definition authorizeContract :: "address \<Rightarrow> address \<Rightarrow> WillsNFT \<Rightarrow> error + WillsNFT" where
  \<comment> \<open>lines 328-331, \<^verbatim>\<open>onlyOwner\<close>\<close>
  "authorizeContract sender contractAddress s =
     (if contractOwner s \<noteq> sender then Inl (CustomError ''OwnableUnauthorizedAccount'')
      else require (contractAddress \<noteq> 0) ''Cannot authorize zero address'' (
        Inr (s\<lparr>authorizedContracts := (authorizedContracts s)(contractAddress := True)\<rparr>)))"

definition revokeContract :: "address \<Rightarrow> address \<Rightarrow> WillsNFT \<Rightarrow> error + WillsNFT" where
  \<comment> \<open>lines 337-339, \<^verbatim>\<open>onlyOwner\<close>\<close>
  "revokeContract sender contractAddress s =
     (if contractOwner s \<noteq> sender then Inl (CustomError ''OwnableUnauthorizedAccount'')
      else Inr (s\<lparr>authorizedContracts := (authorizedContracts s)(contractAddress := False)\<rparr>))"

definition executeWillByContract ::
  "address \<Rightarrow> uint256 \<Rightarrow> uint256 \<Rightarrow> address \<Rightarrow> WillsNFT \<Rightarrow> error + WillsNFT" where
  \<comment> \<open>lines 346-355\<close>
  "executeWillByContract sender now tokenId exec s =
     require (ownerExists s tokenId) ''Will does not exist'' (
     require (authorizedContracts s sender) ''Contract not authorized'' (
     require (executor (wills s tokenId) = exec) ''Invalid executor'' (
     require (\<not> isExecuted (wills s tokenId)) ''Will already executed'' (
     Inr (mark_executed tokenId exec now s)))))"

definition emergencyExecuteWillByContract ::
  "address \<Rightarrow> uint256 \<Rightarrow> uint256 \<Rightarrow> address \<Rightarrow> WillsNFT \<Rightarrow> error + WillsNFT" where
  \<comment> \<open>lines 362-374\<close>
  "emergencyExecuteWillByContract sender now tokenId exec s =
     require (ownerExists s tokenId) ''Will does not exist'' (
     require (authorizedContracts s sender) ''Contract not authorized'' (
     require (\<not> isExecuted (wills s tokenId)) ''Will already executed'' (
     bind (emergency_deadline s tokenId) (\<lambda>deadline.
     require (deadline \<le> now) ''Emergency delay period not met'' (
     Inr (mark_executed tokenId exec now s))))))"

section \<open>The ledger the engine moves assets on\<close>

text \<open>
  Native currency, fungible tokens and non-fungible tokens held by accounts. The token
  contracts are external to the repository; they are the ideal ones the engine's calls
  assume: a transfer either moves the asset or fails the call. \<open>refuses_eth\<close> marks the
  accounts whose code rejects a plain transfer of native currency. \<open>transfers\<close> is the
  sequence of transfers performed so far, in the order they were made, kept so that the
  order of the engine's payments can be stated.
\<close>

datatype transfer =
    EthTransfer address address uint256             \<comment> \<open>from, to, amount\<close>
  | Erc20Transfer address address address uint256   \<comment> \<open>token, from, to, amount\<close>
  | Erc721Transfer address address address uint256  \<comment> \<open>token, from, to, asset id\<close>

record Ledger =
  eth :: "address \<Rightarrow> uint256"
  refuses_eth :: "address \<Rightarrow> bool"
  erc20 :: "address \<Rightarrow> address \<Rightarrow> uint256"
  erc721 :: "address \<Rightarrow> uint256 \<Rightarrow> address"
  transfers :: "transfer list"

definition eth_transfer :: "address \<Rightarrow> address \<Rightarrow> uint256 \<Rightarrow> Ledger \<Rightarrow> error + Ledger" where
  \<comment> \<open>\<^verbatim>\<open>payable(dst).transfer(amount)\<close> executed by \<open>src\<close>\<close>
  "eth_transfer src dst amount l =
     (if eth l src < amount \<or> refuses_eth l dst then Inl CallFailed
      else let debited = (eth l)(src := eth l src - amount)
           in Inr (l\<lparr>eth := debited(dst := debited dst + amount),
                     transfers := transfers l @ [EthTransfer src dst amount]\<rparr>))"

definition erc20_balanceOf :: "address \<Rightarrow> address \<Rightarrow> Ledger \<Rightarrow> uint256" where
  "erc20_balanceOf token holder l = erc20 l token holder"

definition erc20_transfer ::
  "address \<Rightarrow> address \<Rightarrow> address \<Rightarrow> uint256 \<Rightarrow> Ledger \<Rightarrow> error + Ledger \<times> bool" where
  \<comment> \<open>\<^verbatim>\<open>IERC20(token).transfer(dst, amount)\<close> executed by \<open>src\<close>; the value returned with
      the ledger is the call's boolean result\<close>
  "erc20_transfer token src dst amount l =
     (if dst = 0 then Inl (CustomError ''ERC20InvalidReceiver'')
      else if erc20 l token src < amount then Inl (CustomError ''ERC20InsufficientBalance'')
      else let debited = (erc20 l token)(src := erc20 l token src - amount)
           in Inr (l\<lparr>erc20 := (erc20 l)(token := debited(dst := debited dst + amount)),
                     transfers := transfers l @ [Erc20Transfer token src dst amount]\<rparr>, True))"

definition erc721_ownerOf :: "address \<Rightarrow> uint256 \<Rightarrow> Ledger \<Rightarrow> error + address" where
  "erc721_ownerOf token assetId l =
     (if erc721 l token assetId = 0 then Inl (CustomError ''ERC721NonexistentToken'')
      else Inr (erc721 l token assetId))"

definition erc721_safeTransferFrom ::
  "address \<Rightarrow> address \<Rightarrow> address \<Rightarrow> address \<Rightarrow> uint256 \<Rightarrow> Ledger \<Rightarrow> error + Ledger" where
  \<comment> \<open>\<^verbatim>\<open>IERC721(token).safeTransferFrom(src, dst, assetId)\<close> executed by \<open>sender\<close>, who
      must be the holder (approvals on external tokens are not modelled)\<close>
  "erc721_safeTransferFrom sender token src dst assetId l =
     (if dst = 0 then Inl (CustomError ''ERC721InvalidReceiver'')
      else if erc721 l token assetId = 0 then Inl (CustomError ''ERC721NonexistentToken'')
      else if erc721 l token assetId \<noteq> sender then Inl (CustomError ''ERC721InsufficientApproval'')
      else if erc721 l token assetId \<noteq> src then Inl (CustomError ''ERC721IncorrectOwner'')
      else Inr (l\<lparr>erc721 := (erc721 l)(token := (erc721 l token)(assetId := dst)),
                  transfers := transfers l @ [Erc721Transfer token src dst assetId]\<rparr>))"

section \<open>The execution engine: WillExecutor\<close>

record ETHDistribution =
  eth_beneficiary :: address
  eth_amount :: uint256

record ERC20Distribution =
  erc20_beneficiary :: address
  erc20_tokenContract :: address
  erc20_amount :: uint256

record ERC721Distribution =
  erc721_beneficiary :: address
  erc721_tokenContract :: address
  erc721_tokenId :: uint256

record ExecutionInstruction =
  ethDistributions :: "ETHDistribution list"
  erc20Distributions :: "ERC20Distribution list"
  erc721Distributions :: "ERC721Distribution list"
  instructionHash :: uint256

record ExecutionStatus =
  status_isExecuted :: bool
  isInitiated :: bool
  executionTimestamp :: uint256
  status_executor :: address
  failureReason :: string

datatype exec_event =
    WillExecutionStarted uint256 address
  | ETHDistributed uint256 address uint256
  | ERC20Distributed uint256 address address uint256
  | ERC721Distributed uint256 address address uint256
  | ExecutionCompleted uint256 uint256
  | ExecutionFailed uint256 string

record WillExecutor =
  executionStatuses :: "uint256 \<Rightarrow> ExecutionStatus"
  instructionHashes :: "uint256 \<Rightarrow> uint256"
  executionFeePercentage :: uint256
  feeRecipient :: address
  engineOwner :: address
  engine_events :: "exec_event list"

text \<open>
  The engine runs against the registry it was deployed with (\<open>willsNFT\<close>, line 62) and
  against the ledger; \<open>this\<close> is the engine's own address, the \<^verbatim>\<open>msg.sender\<close> of every
  call it makes.
\<close>

record World =
  willsNFT :: WillsNFT
  engine :: WillExecutor
  this :: address
  ledger :: Ledger

definition MAX_FEE_PERCENTAGE :: uint256 where
  "MAX_FEE_PERCENTAGE = 500"

definition empty_status :: ExecutionStatus where
  "empty_status = \<lparr>status_isExecuted = False, isInitiated = False, executionTimestamp = 0,
     status_executor = 0, failureReason = []\<rparr>"

definition deploy_WillExecutor :: "address \<Rightarrow> address \<Rightarrow> error + WillExecutor" where
  \<comment> \<open>the constructor, lines 82-91, given a deployed registry; the fee rate starts at
      the initial value of line 67\<close>
  "deploy_WillExecutor deployer recipient =
     require (recipient \<noteq> 0) ''Fee recipient cannot be zero'' (
     Inr \<lparr>executionStatuses = (\<lambda>_. empty_status), instructionHashes = (\<lambda>_. 0),
          executionFeePercentage = 100, feeRecipient = recipient, engineOwner = deployer,
          engine_events = []\<rparr>)"

definition emit :: "exec_event \<Rightarrow> World \<Rightarrow> World" where
  "emit ev w = w\<lparr>engine := (engine w)\<lparr>engine_events := engine_events (engine w) @ [ev]\<rparr>\<rparr>"

definition update_status :: "uint256 \<Rightarrow> (ExecutionStatus \<Rightarrow> ExecutionStatus) \<Rightarrow> World \<Rightarrow> World" where
  \<comment> \<open>a write to fields of \<^verbatim>\<open>executionStatuses[tokenId]\<close>\<close>
  "update_status tokenId f w =
     w\<lparr>engine := (engine w)\<lparr>executionStatuses :=
         (executionStatuses (engine w))(tokenId := f (executionStatuses (engine w) tokenId))\<rparr>\<rparr>"

subsection \<open>The three distribution passes\<close>

fun total_amount :: "ETHDistribution list \<Rightarrow> uint256 \<Rightarrow> error + uint256" where
  \<comment> \<open>the first loop of \<^verbatim>\<open>_distributeETH\<close>, lines 166-168\<close>
  "total_amount [] totalDistribution = Inr totalDistribution"
| "total_amount (d # ds) totalDistribution =
     (case checked_add totalDistribution (eth_amount d) of
        Inl e \<Rightarrow> Inl e
      | Inr t \<Rightarrow> total_amount ds t)"

definition pay_beneficiary :: "uint256 \<Rightarrow> ETHDistribution \<Rightarrow> World \<Rightarrow> error + World" where
  \<comment> \<open>the body of the second loop of \<^verbatim>\<open>_distributeETH\<close>, lines 180-187\<close>
  "pay_beneficiary tokenId d w =
     require (eth_beneficiary d \<noteq> 0) ''Invalid beneficiary address'' (
     require (eth_amount d > 0) ''Invalid distribution amount'' (
     bind (eth_transfer (this w) (eth_beneficiary d) (eth_amount d) (ledger w)) (\<lambda>l.
     Inr (emit (ETHDistributed tokenId (eth_beneficiary d) (eth_amount d)) (w\<lparr>ledger := l\<rparr>)))))"

fun pay_beneficiaries :: "uint256 \<Rightarrow> ETHDistribution list \<Rightarrow> World \<Rightarrow> error + World" where
  \<comment> \<open>the second loop of \<^verbatim>\<open>_distributeETH\<close>, lines 179-188\<close>
  "pay_beneficiaries tokenId [] w = Inr w"
| "pay_beneficiaries tokenId (d # ds) w =
     (case pay_beneficiary tokenId d w of
        Inl e \<Rightarrow> Inl e
      | Inr w' \<Rightarrow> pay_beneficiaries tokenId ds w')"

definition distributeETH :: "uint256 \<Rightarrow> ETHDistribution list \<Rightarrow> World \<Rightarrow> error + World" where
  \<comment> \<open>\<^verbatim>\<open>_distributeETH\<close>, lines 159-194\<close>
  "distributeETH tokenId distributions w =
     bind (total_amount distributions 0) (\<lambda>totalDistribution.
     if totalDistribution = 0 then Inr w
     else
       bind (checked_mul totalDistribution (executionFeePercentage (engine w))) (\<lambda>product.
       let fee = product div 10000 in
       bind (checked_add totalDistribution fee) (\<lambda>requiredBalance.
       require (eth (ledger w) (this w) \<ge> requiredBalance) ''Insufficient ETH balance'' (
       bind (pay_beneficiaries tokenId distributions w) (\<lambda>w1.
       if fee > 0
       then bind (eth_transfer (this w1) (feeRecipient (engine w1)) fee (ledger w1)) (\<lambda>l.
            Inr (w1\<lparr>ledger := l\<rparr>))
       else Inr w1)))))"

definition distributeERC20_entry :: "uint256 \<Rightarrow> ERC20Distribution \<Rightarrow> World \<Rightarrow> error + World" where
  \<comment> \<open>the loop body of \<^verbatim>\<open>_distributeERC20\<close>, lines 206-229\<close>
  "distributeERC20_entry tokenId dist w =
     require (erc20_beneficiary dist \<noteq> 0) ''Invalid beneficiary address'' (
     require (erc20_tokenContract dist \<noteq> 0) ''Invalid token contract'' (
     require (erc20_amount dist > 0) ''Invalid distribution amount'' (
     let token = erc20_tokenContract dist;
         balance = erc20_balanceOf token (this w) (ledger w) in
     require (balance \<ge> erc20_amount dist) ''Insufficient token balance'' (
     bind (checked_mul (erc20_amount dist) (executionFeePercentage (engine w))) (\<lambda>product.
     let fee = product div 10000 in
     bind (checked_sub (erc20_amount dist) fee) (\<lambda>netAmount.
     bind (erc20_transfer token (this w) (erc20_beneficiary dist) netAmount (ledger w)) (\<lambda>(l1, sent).
     require sent ''Token transfer failed'' (
     bind (if fee > 0
           then bind (erc20_transfer token (this w) (feeRecipient (engine w)) fee l1) (\<lambda>(l2, fee_sent).
                require fee_sent ''Fee transfer failed'' (Inr l2))
           else Inr l1) (\<lambda>l3.
     Inr (emit (ERC20Distributed tokenId (erc20_beneficiary dist) token netAmount)
            (w\<lparr>ledger := l3\<rparr>)))))))))))"

fun distributeERC20 :: "uint256 \<Rightarrow> ERC20Distribution list \<Rightarrow> World \<Rightarrow> error + World" where
  \<comment> \<open>\<^verbatim>\<open>_distributeERC20\<close>, lines 201-231\<close>
  "distributeERC20 tokenId [] w = Inr w"
| "distributeERC20 tokenId (dist # rest) w =
     (case distributeERC20_entry tokenId dist w of
        Inl e \<Rightarrow> Inl e
      | Inr w' \<Rightarrow> distributeERC20 tokenId rest w')"

definition distributeERC721_entry :: "uint256 \<Rightarrow> ERC721Distribution \<Rightarrow> World \<Rightarrow> error + World" where
  \<comment> \<open>the loop body of \<^verbatim>\<open>_distributeERC721\<close>, lines 243-253\<close>
  "distributeERC721_entry tokenId dist w =
     require (erc721_beneficiary dist \<noteq> 0) ''Invalid beneficiary address'' (
     require (erc721_tokenContract dist \<noteq> 0) ''Invalid token contract'' (
     bind (erc721_ownerOf (erc721_tokenContract dist) (erc721_tokenId dist) (ledger w)) (\<lambda>holder.
     require (holder = this w) ''NFT not owned by executor'' (
     bind (erc721_safeTransferFrom (this w) (erc721_tokenContract dist) (this w)
             (erc721_beneficiary dist) (erc721_tokenId dist) (ledger w)) (\<lambda>l.
     Inr (emit (ERC721Distributed tokenId (erc721_beneficiary dist) (erc721_tokenContract dist)
                  (erc721_tokenId dist))
            (w\<lparr>ledger := l\<rparr>)))))))"

fun distributeERC721 :: "uint256 \<Rightarrow> ERC721Distribution list \<Rightarrow> World \<Rightarrow> error + World" where
  \<comment> \<open>\<^verbatim>\<open>_distributeERC721\<close>, lines 238-255\<close>
  "distributeERC721 tokenId [] w = Inr w"
| "distributeERC721 tokenId (dist # rest) w =
     (case distributeERC721_entry tokenId dist w of
        Inl e \<Rightarrow> Inl e
      | Inr w' \<Rightarrow> distributeERC721 tokenId rest w')"

definition executeDistributions ::
  "address \<Rightarrow> uint256 \<Rightarrow> ExecutionInstruction \<Rightarrow> World \<Rightarrow> error + World" where
  \<comment> \<open>\<^verbatim>\<open>_executeDistributions\<close>, lines 138-152\<close>
  "executeDistributions sender tokenId instructions w =
     require (sender = this w) ''Only self-callable'' (
     bind (distributeETH tokenId (ethDistributions instructions) w) (\<lambda>w1.
     bind (distributeERC20 tokenId (erc20Distributions instructions) w1) (\<lambda>w2.
     distributeERC721 tokenId (erc721Distributions instructions) w2)))"

subsection \<open>One execution attempt\<close>

definition mark_initiated :: "address \<Rightarrow> uint256 \<Rightarrow> World \<Rightarrow> World" where
  \<comment> \<open>lines 106-109 (and 271-274)\<close>
  "mark_initiated sender tokenId w =
     emit (WillExecutionStarted tokenId sender)
       (update_status tokenId (\<lambda>st. st\<lparr>isInitiated := True, status_executor := sender\<rparr>) w)"

definition mark_completed :: "uint256 \<Rightarrow> uint256 \<Rightarrow> World \<Rightarrow> World" where
  \<comment> \<open>lines 116-119 (and 281-284)\<close>
  "mark_completed now tokenId w =
     emit (ExecutionCompleted tokenId now)
       (update_status tokenId (\<lambda>st. st\<lparr>status_isExecuted := True, executionTimestamp := now\<rparr>) w)"

definition record_failure :: "uint256 \<Rightarrow> string \<Rightarrow> World \<Rightarrow> World" where
  \<comment> \<open>the writes of a catch block, lines 121-123 and 126-128 (and 286-288, 291-293)\<close>
  "record_failure tokenId reason w =
     emit (ExecutionFailed tokenId reason)
       (update_status tokenId (\<lambda>st. st\<lparr>isInitiated := False, failureReason := reason\<rparr>) w)"

text \<open>
  \<^verbatim>\<open>try this._executeDistributions(...)\<close> is an external call of the engine to itself.
  When it fails, what it changed is undone and the catch block runs in the state of the
  call, \<open>w1\<close>. Each catch block writes the status (\<open>record_failure\<close>) and then ends in
  \<^verbatim>\<open>revert(...)\<close>: the state \<open>failed\<close> it has written is not part of what the function
  returns, which is the error alone.
\<close>

definition executeWill ::
  "address \<Rightarrow> uint256 \<Rightarrow> uint256 \<Rightarrow> ExecutionInstruction \<Rightarrow> World \<Rightarrow> error + World" where
  \<comment> \<open>\<^verbatim>\<open>WillExecutor.executeWill\<close>, lines 98-131, with its modifiers of lines 71-80\<close>
  "executeWill sender now tokenId instructions w =
     require (token_exists tokenId (willsNFT w)) ''Invalid token ID'' (
     bind (getExecutor tokenId (willsNFT w)) (\<lambda>designated.
     require (sender = designated) ''Only designated executor can execute'' (
     bind (getIsExecuted tokenId (willsNFT w)) (\<lambda>sealed.
     require (\<not> sealed) ''Will already executed'' (
     require (\<not> status_isExecuted (executionStatuses (engine w) tokenId)) ''Will already executed'' (
     require (\<not> isInitiated (executionStatuses (engine w) tokenId)) ''Execution already initiated'' (
     let w1 = mark_initiated sender tokenId w in
     case executeDistributions (this w1) tokenId instructions w1 of
       Inr w2 \<Rightarrow>
         bind (executeWillByContract (this w2) now tokenId sender (willsNFT w2)) (\<lambda>registry.
         Inr (mark_completed now tokenId (w2\<lparr>willsNFT := registry\<rparr>)))
     | Inl (Revert reason) \<Rightarrow>
         let failed = record_failure tokenId reason w1
         in Inl (Revert (''Execution failed: '' @ reason))
     | Inl _ \<Rightarrow>
         let failed = record_failure tokenId ''Unknown execution error'' w1
         in Inl (Revert ''Execution failed with unknown error''))))))))"

definition emergencyExecuteWill ::
  "address \<Rightarrow> uint256 \<Rightarrow> uint256 \<Rightarrow> ExecutionInstruction \<Rightarrow> World \<Rightarrow> error + World" where
  \<comment> \<open>\<^verbatim>\<open>WillExecutor.emergencyExecuteWill\<close>, lines 262-296\<close>
  "emergencyExecuteWill sender now tokenId instructions w =
     require (token_exists tokenId (willsNFT w)) ''Invalid token ID'' (
     bind (canEmergencyExecute now tokenId (willsNFT w)) (\<lambda>ready.
     require ready ''Emergency execution not available'' (
     require (\<not> status_isExecuted (executionStatuses (engine w) tokenId)) ''Will already executed'' (
     require (\<not> isInitiated (executionStatuses (engine w) tokenId)) ''Execution already initiated'' (
     let w1 = mark_initiated sender tokenId w in
     case executeDistributions (this w1) tokenId instructions w1 of
       Inr w2 \<Rightarrow>
         bind (emergencyExecuteWillByContract (this w2) now tokenId sender (willsNFT w2)) (\<lambda>registry.
         Inr (mark_completed now tokenId (w2\<lparr>willsNFT := registry\<rparr>)))
     | Inl (Revert reason) \<Rightarrow>
         let failed = record_failure tokenId reason w1
         in Inl (Revert (''Emergency execution failed: '' @ reason))
     | Inl _ \<Rightarrow>
         let failed = record_failure tokenId ''Unknown execution error'' w1
         in Inl (Revert ''Emergency execution failed with unknown error''))))))"

subsection \<open>Administration and views\<close>

definition setExecutionFeePercentage :: "address \<Rightarrow> uint256 \<Rightarrow> World \<Rightarrow> error + World" where
  \<comment> \<open>lines 304-307, \<^verbatim>\<open>onlyOwner\<close>\<close>
  "setExecutionFeePercentage sender feePercentage w =
     (if engineOwner (engine w) \<noteq> sender then Inl (CustomError ''OwnableUnauthorizedAccount'')
      else require (feePercentage \<le> MAX_FEE_PERCENTAGE) ''Fee percentage too high'' (
        Inr (w\<lparr>engine := (engine w)\<lparr>executionFeePercentage := feePercentage\<rparr>\<rparr>)))"

definition setFeeRecipient :: "address \<Rightarrow> address \<Rightarrow> World \<Rightarrow> error + World" where
  \<comment> \<open>lines 313-316, \<^verbatim>\<open>onlyOwner\<close>\<close>
  "setFeeRecipient sender recipient w =
     (if engineOwner (engine w) \<noteq> sender then Inl (CustomError ''OwnableUnauthorizedAccount'')
      else require (recipient \<noteq> 0) ''Fee recipient cannot be zero address'' (
        Inr (w\<lparr>engine := (engine w)\<lparr>feeRecipient := recipient\<rparr>\<rparr>)))"

definition getExecutionStatus :: "uint256 \<Rightarrow> World \<Rightarrow> ExecutionStatus" where
  \<comment> \<open>lines 325-327\<close>
  "getExecutionStatus tokenId w = executionStatuses (engine w) tokenId"

definition canExecuteWill :: "uint256 \<Rightarrow> World \<Rightarrow> error + bool" where
  \<comment> \<open>lines 334-341\<close>
  "canExecuteWill tokenId w =
     (if \<not> token_exists tokenId (willsNFT w) then Inr False
      else bind (getIsExecuted tokenId (willsNFT w)) (\<lambda>sealed.
        Inr (\<not> sealed \<and> \<not> status_isExecuted (executionStatuses (engine w) tokenId)
             \<and> \<not> isInitiated (executionStatuses (engine w) tokenId))))"

definition receive_eth :: "address \<Rightarrow> uint256 \<Rightarrow> World \<Rightarrow> error + World" where
  \<comment> \<open>\<^verbatim>\<open>receive() external payable {}\<close>, line 344: \<open>sender\<close> pays \<open>amount\<close> to the engine\<close>
  "receive_eth sender amount w =
     (if eth (ledger w) sender < amount then Inl CallFailed
      else let debited = (eth (ledger w))(sender := eth (ledger w) sender - amount)
           in Inr (w\<lparr>ledger := (ledger w)\<lparr>eth := debited(this w := debited (this w) + amount)\<rparr>\<rparr>))"

definition withdrawBalance :: "address \<Rightarrow> World \<Rightarrow> error + World" where
  \<comment> \<open>lines 349-353, \<^verbatim>\<open>onlyOwner\<close>\<close>
  "withdrawBalance sender w =
     (if engineOwner (engine w) \<noteq> sender then Inl (CustomError ''OwnableUnauthorizedAccount'')
      else let balance = eth (ledger w) (this w) in
        require (balance > 0) ''No balance to withdraw'' (
        bind (eth_transfer (this w) (engineOwner (engine w)) balance (ledger w)) (\<lambda>l.
        Inr (w\<lparr>ledger := l\<rparr>))))"

definition emergencyTokenRecovery :: "address \<Rightarrow> address \<Rightarrow> uint256 \<Rightarrow> World \<Rightarrow> error + World" where
  \<comment> \<open>lines 360-363, \<^verbatim>\<open>onlyOwner\<close>; the boolean the token returns is not looked at\<close>
  "emergencyTokenRecovery sender token amount w =
     (if engineOwner (engine w) \<noteq> sender then Inl (CustomError ''OwnableUnauthorizedAccount'')
      else require (token \<noteq> 0) ''Invalid token address'' (
        bind (erc20_transfer token (this w) (engineOwner (engine w)) amount (ledger w)) (\<lambda>(l, sent).
        Inr (w\<lparr>ledger := l\<rparr>))))"

definition engine_transferOwnership :: "address \<Rightarrow> address \<Rightarrow> World \<Rightarrow> error + World" where
  \<comment> \<open>\<^verbatim>\<open>Ownable.transferOwnership\<close>, inherited by the engine\<close>
  "engine_transferOwnership sender newOwner w =
     (if engineOwner (engine w) \<noteq> sender then Inl (CustomError ''OwnableUnauthorizedAccount'')
      else if newOwner = 0 then Inl (CustomError ''OwnableInvalidOwner'')
      else Inr (w\<lparr>engine := (engine w)\<lparr>engineOwner := newOwner\<rparr>\<rparr>))"

definition engine_renounceOwnership :: "address \<Rightarrow> World \<Rightarrow> error + World" where
  \<comment> \<open>\<^verbatim>\<open>Ownable.renounceOwnership\<close>, inherited by the engine\<close>
  "engine_renounceOwnership sender w =
     (if engineOwner (engine w) \<noteq> sender then Inl (CustomError ''OwnableUnauthorizedAccount'')
      else Inr (w\<lparr>engine := (engine w)\<lparr>engineOwner := 0\<rparr>\<rparr>))"

section \<open>Calls and runs\<close>

text \<open>
  Every state-changing function of the registry that an account can call, as a value,
  so that sequences of calls can be run. A call is made by a sender at a block timestamp.

  A \<open>CreateWill\<close> carries what its caller does when \<^verbatim>\<open>_safeMint\<close> calls its
  \<^verbatim>\<open>onERC721Received\<close>: the calls that the receiver's code makes on the registry, each
  with the account it is made from, and whether the receiver then accepts the token. A
  caller without code is not called and accepts: its creation is
  \<open>CreateWill hash exec delay [] True\<close>. The calls of the receiver run in the same
  block as the creation, on the state in which the token is minted and the record is
  not yet written; one that fails leaves that state as it was and the receiver goes on.
  They run with the \<^verbatim>\<open>nonReentrant\<close> guard locked, \<open>entered\<close>, so that a
  \<^verbatim>\<open>createWill\<close> among them fails; \<^verbatim>\<open>createWill\<close> is the only function of the
  registry under the guard.
\<close>

datatype nft_op =
    CreateWill string address uint256 "(address \<times> nft_op) list" bool
  | UpdateWill uint256 string
  | UpdateExecutor uint256 address
  | UpdateEmergencyDelay uint256 uint256
  | ExecuteWill uint256
  | EmergencyExecuteWill uint256
  | AuthorizeViewer uint256 address
  | RevokeViewer uint256 address
  | AuthorizeContract address
  | RevokeContract address
  | ExecuteWillByContract uint256 address
  | EmergencyExecuteWillByContract uint256 address
  | TransferFrom address address uint256
  | Approve address uint256
  | SetApprovalForAll address bool
  | TransferOwnership address
  | RenounceOwnership

definition is_creation :: "nft_op \<Rightarrow> bool" where
  \<comment> \<open>the call is a \<open>createWill\<close>\<close>
  "is_creation c = (case c of CreateWill hash exec delay hook accepted \<Rightarrow> True | _ \<Rightarrow> False)"

definition returning_nothing :: "error + 's \<Rightarrow> error + 's \<times> uint256 option" where
  "returning_nothing r = bind r (\<lambda>s. Inr (s, None))"

fun nft_body ::
  "bool \<Rightarrow> address \<Rightarrow> uint256 \<Rightarrow> nft_op \<Rightarrow> WillsNFT \<Rightarrow> error + WillsNFT \<times> uint256 option"
and onERC721Received :: "uint256 \<Rightarrow> (address \<times> nft_op) list \<Rightarrow> WillsNFT \<Rightarrow> WillsNFT" where
  "nft_body entered sender now (CreateWill hash exec delay hook accepted) s =
     (if entered then Inl (CustomError ''ReentrancyGuardReentrantCall'')
      else bind (createWill sender now hash exec delay
                   (\<lambda>s1. receiver_answer accepted (onERC721Received now hook s1)) s)
             (\<lambda>(s', tokenId). Inr (s', Some tokenId)))"
| "nft_body entered sender now (UpdateWill tokenId hash) s =
     returning_nothing (updateWill sender now tokenId hash s)"
| "nft_body entered sender now (UpdateExecutor tokenId exec) s =
     returning_nothing (updateExecutor sender now tokenId exec s)"
| "nft_body entered sender now (UpdateEmergencyDelay tokenId delay) s =
     returning_nothing (updateEmergencyDelay sender now tokenId delay s)"
| "nft_body entered sender now (ExecuteWill tokenId) s =
     returning_nothing (nft_executeWill sender now tokenId s)"
| "nft_body entered sender now (EmergencyExecuteWill tokenId) s =
     returning_nothing (nft_emergencyExecuteWill sender now tokenId s)"
| "nft_body entered sender now (AuthorizeViewer tokenId viewer) s =
     returning_nothing (authorizeViewer sender tokenId viewer s)"
| "nft_body entered sender now (RevokeViewer tokenId viewer) s =
     returning_nothing (revokeViewer sender tokenId viewer s)"
| "nft_body entered sender now (AuthorizeContract a) s =
     returning_nothing (authorizeContract sender a s)"
| "nft_body entered sender now (RevokeContract a) s =
     returning_nothing (revokeContract sender a s)"
| "nft_body entered sender now (ExecuteWillByContract tokenId exec) s =
     returning_nothing (executeWillByContract sender now tokenId exec s)"
| "nft_body entered sender now (EmergencyExecuteWillByContract tokenId exec) s =
     returning_nothing (emergencyExecuteWillByContract sender now tokenId exec s)"
| "nft_body entered sender now (TransferFrom src dst tokenId) s =
     returning_nothing (transferFrom sender src dst tokenId s)"
| "nft_body entered sender now (Approve spender tokenId) s =
     returning_nothing (approve sender spender tokenId s)"
| "nft_body entered sender now (SetApprovalForAll operator approved) s =
     returning_nothing (setApprovalForAll sender operator approved s)"
| "nft_body entered sender now (TransferOwnership newOwner) s =
     returning_nothing (transferOwnership sender newOwner s)"
| "nft_body entered sender now RenounceOwnership s =
     returning_nothing (renounceOwnership sender s)"
| "onERC721Received now [] s = s"
| "onERC721Received now ((sender, c) # hook) s =
     onERC721Received now hook
       (case nft_body True sender now c s of Inl e \<Rightarrow> s | Inr (s', r) \<Rightarrow> s')"

type_synonym nft_call = "address \<times> uint256 \<times> nft_op"

fun nft_step :: "nft_call \<Rightarrow> WillsNFT \<Rightarrow> WillsNFT \<times> (error + uint256 option)" where
  \<comment> \<open>a call from outside: the guard is open\<close>
  "nft_step (sender, now, c) s = transact_returning (nft_body False sender now c) s"

fun nft_run :: "nft_call list \<Rightarrow> WillsNFT \<Rightarrow> WillsNFT" where
  "nft_run [] s = s"
| "nft_run (c # cs) s = nft_run cs (fst (nft_step c s))"

fun created_ids :: "nft_call list \<Rightarrow> WillsNFT \<Rightarrow> uint256 list" where
  \<comment> \<open>the token ids that the calls of a run return, in the order of the calls\<close>
  "created_ids [] s = []"
| "created_ids (c # cs) s =
     (case snd (nft_step c s) of
        Inr (Some tokenId) \<Rightarrow> tokenId # created_ids cs (fst (nft_step c s))
      | _ \<Rightarrow> created_ids cs (fst (nft_step c s)))"

text \<open>
  The calls an account can make in the world of both contracts: any call of the
  registry, any external function of the engine, and \<open>LedgerActivity\<close>, whatever other
  accounts do on the ledger between two calls. The receiver of a \<open>Registry\<close> creation
  calls the registry only; \<open>CreateWillFromContract\<close> is the \<^verbatim>\<open>createWill\<close> of a caller
  whose \<^verbatim>\<open>onERC721Received\<close> makes calls on both contracts, the engine's execution
  functions among them. Its two halves are those of \<open>createWill\<close>, and it is the
  \<open>Registry\<close> creation when the receiver calls the registry only
  (\<open>creation_in_the_world\<close>).
\<close>

datatype world_op =
    Registry nft_op
  | CreateWillFromContract string address uint256 "(address \<times> world_op) list" bool
  | EngineExecuteWill uint256 ExecutionInstruction
  | EngineEmergencyExecuteWill uint256 ExecutionInstruction
  | ExecuteDistributions uint256 ExecutionInstruction
  | SetExecutionFeePercentage uint256
  | SetFeeRecipient address
  | WithdrawBalance
  | EmergencyTokenRecovery address uint256
  | ReceiveEth uint256
  | EngineTransferOwnership address
  | EngineRenounceOwnership
  | LedgerActivity Ledger

fun world_body :: "bool \<Rightarrow> address \<Rightarrow> uint256 \<Rightarrow> world_op \<Rightarrow> World \<Rightarrow> error + World"
and world_onERC721Received :: "uint256 \<Rightarrow> (address \<times> world_op) list \<Rightarrow> World \<Rightarrow> World" where
  "world_body entered sender now (Registry c) w =
     bind (nft_body entered sender now c (willsNFT w)) (\<lambda>(registry, r).
     Inr (w\<lparr>willsNFT := registry\<rparr>))"
| "world_body entered sender now (CreateWillFromContract hash exec delay hook accepted) w =
     (if entered then Inl (CustomError ''ReentrancyGuardReentrantCall'')
      else bind (createWill_mint sender hash exec delay (willsNFT w)) (\<lambda>(s1, tokenId).
           bind (receiver_answer accepted (world_onERC721Received now hook (w\<lparr>willsNFT := s1\<rparr>)))
             (\<lambda>w2.
           Inr (w2\<lparr>willsNFT :=
                  createWill_record sender now tokenId hash exec delay (willsNFT w2)\<rparr>))))"
| "world_body entered sender now (EngineExecuteWill tokenId instructions) w =
     executeWill sender now tokenId instructions w"
| "world_body entered sender now (EngineEmergencyExecuteWill tokenId instructions) w =
     emergencyExecuteWill sender now tokenId instructions w"
| "world_body entered sender now (ExecuteDistributions tokenId instructions) w =
     executeDistributions sender tokenId instructions w"
| "world_body entered sender now (SetExecutionFeePercentage p) w =
     setExecutionFeePercentage sender p w"
| "world_body entered sender now (SetFeeRecipient a) w = setFeeRecipient sender a w"
| "world_body entered sender now WithdrawBalance w = withdrawBalance sender w"
| "world_body entered sender now (EmergencyTokenRecovery token amount) w =
     emergencyTokenRecovery sender token amount w"
| "world_body entered sender now (ReceiveEth amount) w = receive_eth sender amount w"
| "world_body entered sender now (EngineTransferOwnership a) w =
     engine_transferOwnership sender a w"
| "world_body entered sender now EngineRenounceOwnership w = engine_renounceOwnership sender w"
| "world_body entered sender now (LedgerActivity l) w = Inr (w\<lparr>ledger := l\<rparr>)"
| "world_onERC721Received now [] w = w"
| "world_onERC721Received now ((sender, c) # hook) w =
     world_onERC721Received now hook
       (case world_body True sender now c w of Inl e \<Rightarrow> w | Inr w' \<Rightarrow> w')"

type_synonym world_call = "address \<times> uint256 \<times> world_op"

fun world_step :: "world_call \<Rightarrow> World \<Rightarrow> World" where
  "world_step (sender, now, c) w = fst (transact (world_body False sender now c) w)"

fun world_run :: "world_call list \<Rightarrow> World \<Rightarrow> World" where
  "world_run [] w = w"
| "world_run (c # cs) w = world_run cs (world_step c w)"

definition deploy_World ::
  "WillsNFT \<Rightarrow> address \<Rightarrow> address \<Rightarrow> address \<Rightarrow> Ledger \<Rightarrow> error + World" where
  \<comment> \<open>the engine deployed at \<open>engineAddress\<close> by \<open>engineDeployer\<close>, with the given fee
      recipient, for a registry that is in state \<open>registry\<close> at that moment\<close>
  "deploy_World registry engineDeployer engineAddress recipient l =
     bind (deploy_WillExecutor engineDeployer recipient) (\<lambda>e.
     Inr \<lparr>willsNFT = registry, engine = e, this = engineAddress, ledger = l\<rparr>)"

definition will_content ::
  "WillData \<Rightarrow> string \<times> address \<times> address \<times> uint256 \<times> uint256 \<times> uint256 \<times> bool" where
  \<comment> \<open>every field of a will record but the set of authorized viewers\<close>
  "will_content d =
     (ipfsHash d, creator d, executor d, createdAt d, lastUpdateAt d, emergencyDelay d, isExecuted d)"

section \<open>Invariants and example states\<close>

definition executed_exist :: "WillsNFT \<Rightarrow> bool" where
  \<comment> \<open>the invariant of the registry that the proofs rest on: an executed will is a
      minted token\<close>
  "executed_exist s = (\<forall>tokenId. isExecuted (wills s tokenId) \<longrightarrow> owners s tokenId \<noteq> 0)"

definition CLOCK_MAX :: uint256 where
  \<comment> \<open>the latest block timestamp from which the longest delay can still be counted\<close>
  "CLOCK_MAX = UINT256_MAX - MAX_EMERGENCY_DELAY"

definition deadlines_fit :: "WillsNFT \<Rightarrow> bool" where
  \<comment> \<open>every will was last updated by \<open>CLOCK_MAX\<close> and has a delay within the bound\<close>
  "deadlines_fit s =
     (\<forall>tokenId. lastUpdateAt (wills s tokenId) \<le> CLOCK_MAX
                \<and> emergencyDelay (wills s tokenId) \<le> MAX_EMERGENCY_DELAY)"

definition fresh_will :: WillsNFT where
  \<comment> \<open>account 1 has created will 0 at time 1000, with account 2 as executor and the
      shortest delay, 30 days\<close>
  "fresh_will = nft_run [(1, 1000, CreateWill ''QmWill'' 2 2592000 [] True)] (deploy_WillsNFT 9)"

definition sealed_registry :: WillsNFT where
  \<comment> \<open>then the executor has executed will 0 on the registry\<close>
  "sealed_registry =
     nft_run [(1, 1000, CreateWill ''QmWill'' 2 2592000 [] True), (2, 2000, ExecuteWill 0)]
       (deploy_WillsNFT 9)"

definition handed_to_executor :: WillsNFT where
  \<comment> \<open>or instead the creator has transferred token 0 to the executor\<close>
  "handed_to_executor = nft_run [(1, 1500, TransferFrom 1 2 0)] fresh_will"

definition same_control :: "World \<Rightarrow> World \<Rightarrow> bool" where
  \<comment> \<open>what a distribution pass leaves alone: the registry, the engine's address, its
      status table and its fee parameters\<close>
  "same_control w w' =
     (willsNFT w' = willsNFT w \<and> this w' = this w
      \<and> executionStatuses (engine w') = executionStatuses (engine w)
      \<and> instructionHashes (engine w') = instructionHashes (engine w)
      \<and> executionFeePercentage (engine w') = executionFeePercentage (engine w)
      \<and> feeRecipient (engine w') = feeRecipient (engine w)
      \<and> engineOwner (engine w') = engineOwner (engine w))"

definition eth_received :: "ETHDistribution list \<Rightarrow> address \<Rightarrow> uint256" where
  \<comment> \<open>the native amount an instruction requests for account \<open>x\<close>\<close>
  "eth_received ds x = sum_list (map eth_amount (filter (\<lambda>d. eth_beneficiary d = x) ds))"

definition erc20_moved :: "address \<Rightarrow> address \<Rightarrow> address \<Rightarrow> uint256 \<Rightarrow> Ledger \<Rightarrow> Ledger" where
  \<comment> \<open>the ledger after a fungible transfer that succeeded\<close>
  "erc20_moved token src dst amount l =
     l\<lparr>erc20 := (erc20 l)(token :=
          ((erc20 l token)(src := erc20 l token src - amount))
            (dst := ((erc20 l token)(src := erc20 l token src - amount)) dst + amount)),
       transfers := transfers l @ [Erc20Transfer token src dst amount]\<rparr>"

definition erc721_moved :: "address \<Rightarrow> address \<Rightarrow> address \<Rightarrow> uint256 \<Rightarrow> Ledger \<Rightarrow> Ledger" where
  \<comment> \<open>the ledger after a non-fungible transfer that succeeded\<close>
  "erc721_moved token src dst assetId l =
     l\<lparr>erc721 := (erc721 l)(token := (erc721 l token)(assetId := dst)),
       transfers := transfers l @ [Erc721Transfer token src dst assetId]\<rparr>"


definition genesis_ledger :: Ledger where
  \<comment> \<open>the engine, at address 50, holds 2020 units of native currency, 500 of token 60
      and asset 5 of collection 70\<close>
  "genesis_ledger =
     \<lparr>eth = (\<lambda>_. 0)(50 := 2020), refuses_eth = (\<lambda>_. False),
      erc20 = (\<lambda>_ _. 0)(60 := (\<lambda>_. 0)(50 := 500)),
      erc721 = (\<lambda>_ _. 0)(70 := (\<lambda>_. 0)(5 := 50)), transfers = []\<rparr>"

definition deployed_world :: World where
  \<comment> \<open>the registry deployed by account 9, the engine by account 8 with fee recipient 7\<close>
  "deployed_world =
     \<lparr>willsNFT = deploy_WillsNFT 9,
      engine = \<lparr>executionStatuses = (\<lambda>_. empty_status), instructionHashes = (\<lambda>_. 0),
                executionFeePercentage = 100, feeRecipient = 7, engineOwner = 8,
                engine_events = []\<rparr>,
      this = 50, ledger = genesis_ledger\<rparr>"

definition ready_world :: World where
  \<comment> \<open>will 0 created by account 1 with executor 2, and the engine authorized on the
      registry by its owner\<close>
  "ready_world =
     world_run [(1, 1000, Registry (CreateWill ''QmWill'' 2 2592000 [] True)),
                (9, 1100, Registry (AuthorizeContract 50))] deployed_world"


definition overdrawn :: ExecutionInstruction where
  \<comment> \<open>asks for more native currency than the engine holds\<close>
  "overdrawn = \<lparr>ethDistributions = [\<lparr>eth_beneficiary = 3, eth_amount = 5000\<rparr>],
                 erc20Distributions = [], erc721Distributions = [], instructionHash = 0\<rparr>"

definition estate :: ExecutionInstruction where
  \<comment> \<open>one distribution of each kind; natively 2000 in all, which with the fee of 20
      is exactly what the engine holds\<close>
  "estate = \<lparr>ethDistributions = [\<lparr>eth_beneficiary = 3, eth_amount = 1000\<rparr>,
                                 \<lparr>eth_beneficiary = 4, eth_amount = 1000\<rparr>],
              erc20Distributions = [\<lparr>erc20_beneficiary = 3, erc20_tokenContract = 60,
                                     erc20_amount = 500\<rparr>],
              erc721Distributions = [\<lparr>erc721_beneficiary = 4, erc721_tokenContract = 70,
                                      erc721_tokenId = 5\<rparr>],
              instructionHash = 0\<rparr>"


definition void_instruction :: ExecutionInstruction where
  \<comment> \<open>a single native entry, with the null beneficiary and amount zero\<close>
  "void_instruction = \<lparr>ethDistributions = [\<lparr>eth_beneficiary = 0, eth_amount = 0\<rparr>],
                        erc20Distributions = [], erc721Distributions = [], instructionHash = 0\<rparr>"

definition flawed_payout :: "ETHDistribution list" where
  \<comment> \<open>a payable entry followed by the entry of \<open>void_instruction\<close>\<close>
  "flawed_payout = [\<lparr>eth_beneficiary = 3, eth_amount = 1000\<rparr>, \<lparr>eth_beneficiary = 0, eth_amount = 0\<rparr>]"

definition void_world :: World where
  \<comment> \<open>the executor has run \<open>void_instruction\<close> through the engine\<close>
  "void_world = world_run [(2, 3000, EngineExecuteWill 0 void_instruction)] ready_world"

definition acts_on_flags :: "world_op \<Rightarrow> bool" where
  \<comment> \<open>the calls that can reach a will record or an execution status: those of the
      registry, the creations and the engine's two execution functions\<close>
  "acts_on_flags c =
     (case c of
        Registry r \<Rightarrow> True
      | CreateWillFromContract hash exec delay hook accepted \<Rightarrow> True
      | EngineExecuteWill tokenId instructions \<Rightarrow> True
      | EngineEmergencyExecuteWill tokenId instructions \<Rightarrow> True
      | _ \<Rightarrow> False)"

definition is_execution :: "world_op \<Rightarrow> bool" where
  \<comment> \<open>a call of the engine's \<^verbatim>\<open>executeWill\<close> or \<^verbatim>\<open>emergencyExecuteWill\<close>\<close>
  "is_execution c =
     (case c of
        EngineExecuteWill tokenId instructions \<Rightarrow> True
      | EngineEmergencyExecuteWill tokenId instructions \<Rightarrow> True
      | _ \<Rightarrow> False)"

definition receiver_executes :: "world_op \<Rightarrow> bool" where
  \<comment> \<open>a creation whose receiver, called while the token is being minted, calls one of
      the engine's execution functions\<close>
  "receiver_executes c =
     (case c of
        CreateWillFromContract hash exec delay hook accepted \<Rightarrow>
          (\<exists>(sender, inner) \<in> set hook. is_execution inner)
      | _ \<Rightarrow> False)"

definition reentered_registry :: WillsNFT where
  \<comment> \<open>account 1 is a contract; while it receives token 0 in its \<^verbatim>\<open>createWill\<close>, it
      calls \<^verbatim>\<open>emergencyExecuteWill(0)\<close> on the registry\<close>
  "reentered_registry =
     nft_run [(1, 1000, CreateWill ''QmWill'' 2 2592000 [(1, EmergencyExecuteWill 0)] True)]
       (deploy_WillsNFT 9)"

definition no_distribution :: ExecutionInstruction where
  \<comment> \<open>an instruction that distributes nothing\<close>
  "no_distribution = \<lparr>ethDistributions = [], erc20Distributions = [], erc721Distributions = [],
                       instructionHash = 0\<rparr>"

definition reentered_world :: World where
  \<comment> \<open>the engine is authorized on the registry; account 1 is a contract that, while it
      receives token 0 in its \<^verbatim>\<open>createWill\<close>, calls the engine's
      \<^verbatim>\<open>emergencyExecuteWill(0, no_distribution)\<close>\<close>
  "reentered_world =
     world_run [(9, 900, Registry (AuthorizeContract 50)),
                (1, 1000, CreateWillFromContract ''QmWill'' 2 2592000
                            [(1, EngineEmergencyExecuteWill 0 no_distribution)] True)]
       deployed_world"

definition never_recorded :: "World \<Rightarrow> bool" where
  \<comment> \<open>no status holds a failure reason\<close>
  "never_recorded w = (\<forall>tokenId. failureReason (executionStatuses (engine w) tokenId) = [])"

section \<open>Properties of the registry\<close>

lemmas nft_defs = createWill_def createWill_mint_def createWill_record_def updateWill_def updateExecutor_def updateEmergencyDelay_def
  nft_executeWill_def nft_emergencyExecuteWill_def authorizeViewer_def revokeViewer_def
  authorizeContract_def revokeContract_def executeWillByContract_def
  emergencyExecuteWillByContract_def transferFrom_def approve_def setApprovalForAll_def
  transferOwnership_def renounceOwnership_def mark_executed_def emergency_deadline_def
  safeMint_def mint_def receiver_answer_def setTokenURI_def ownerOf_def ownerExists_def
  require_def bind_def returning_nothing_def transact_returning_def checked_add_def

lemmas eval_defs = nft_defs deploy_WillsNFT_def empty_will_def MIN_EMERGENCY_DELAY_def
  MAX_EMERGENCY_DELAY_def UINT256_MAX_def isAuthorized_def Let_def

lemma createWill_halves:
  "createWill sender now hash exec delay onReceived s =
     bind (createWill_mint sender hash exec delay s) (\<lambda>(s1, tokenId).
     bind (onReceived s1) (\<lambda>s2.
     Inr (createWill_record sender now tokenId hash exec delay s2, tokenId)))"
  by (simp add: createWill_def createWill_mint_def createWill_record_def safeMint_def
      require_def bind_def checked_add_def Let_def split: sum.splits)

lemma createWill_mint_Inr:
  "(createWill_mint sender hash exec delay s = Inr (s1, tokenId)) =
     (hash \<noteq> [] \<and> exec \<noteq> 0 \<and> exec \<noteq> sender
      \<and> MIN_EMERGENCY_DELAY \<le> delay \<and> delay \<le> MAX_EMERGENCY_DELAY
      \<and> tokenIdCounter s + 1 \<le> UINT256_MAX \<and> sender \<noteq> 0 \<and> owners s (tokenIdCounter s) = 0
      \<and> tokenId = tokenIdCounter s
      \<and> s1 = s\<lparr>tokenIdCounter := tokenIdCounter s + 1,
                owners := (owners s)(tokenIdCounter s := sender)\<rparr>)"
  by (auto simp: createWill_mint_def mint_def require_def bind_def checked_add_def Let_def)

lemma create_cases:
  obtains (failed) e where
      "nft_step (sender, now, CreateWill hash exec delay hook accepted) s = (s, Inl e)"
  | (created) s1 where
      "createWill_mint sender hash exec delay s = Inr (s1, tokenIdCounter s)"
      "nft_step (sender, now, CreateWill hash exec delay hook accepted) s
         = (createWill_record sender now (tokenIdCounter s) hash exec delay
              (onERC721Received now hook s1), Inr (Some (tokenIdCounter s)))"
proof (cases "createWill_mint sender hash exec delay s")
  case (Inl e)
  then have "nft_step (sender, now, CreateWill hash exec delay hook accepted) s = (s, Inl e)"
    by (simp add: createWill_halves transact_returning_def bind_def)
  then show ?thesis by (rule failed)
next
  case (Inr minted)
  obtain s1 tokenId where m: "minted = (s1, tokenId)" by (cases minted)
  with Inr have id: "tokenId = tokenIdCounter s" by (simp add: createWill_mint_Inr)
  show ?thesis
  proof (cases accepted)
    case True
    with Inr m id show ?thesis
      by (intro created [of s1])
         (simp_all add: createWill_halves transact_returning_def bind_def receiver_answer_def)
  next
    case False
    with Inr m show ?thesis
      by (intro failed [of "CustomError ''ERC721InvalidReceiver''"])
         (simp add: createWill_halves transact_returning_def bind_def receiver_answer_def)
  qed
qed

lemma guard_stops_create_only:
  "\<not> is_creation c \<Longrightarrow> nft_body entered sender now c s = nft_body True sender now c s"
  by (cases c) (simp_all add: is_creation_def)

lemma hook_keeps:
  assumes "P s"
    and "\<And>sender c s s' r. P s \<Longrightarrow> nft_body True sender now c s = Inr (s', r) \<Longrightarrow> P s'"
  shows "P (onERC721Received now hook s)"
  using assms(1)
proof (induction hook arbitrary: s)
  case Nil
  then show ?case by simp
next
  case (Cons call hook)
  obtain sender c where call: "call = (sender, c)" by (cases call)
  show ?case
  proof (cases "nft_body True sender now c s")
    case (Inl e)
    with Cons.IH [OF Cons.prems] show ?thesis
      unfolding call by simp
  next
    case (Inr result)
    obtain s' r where result: "result = (s', r)" by (cases result)
    from Inr have "P s'"
      unfolding result using Cons.prems assms(2) by blast
    with Cons.IH [of s'] Inr show ?thesis
      unfolding call result by simp
  qed
qed

lemma fresh_will_facts:
  "ownerExists fresh_will 0" "\<not> isExecuted (wills fresh_will 0)"
  "lastUpdateAt (wills fresh_will 0) = 1000" "emergencyDelay (wills fresh_will 0) = 2592000"
  "owners fresh_will 0 = 1" "creator (wills fresh_will 0) = 1" "executor (wills fresh_will 0) = 2"
  "\<not> ownerExists fresh_will 7"
  by (simp_all add: fresh_will_def eval_defs)

lemma sealed_registry_facts:
  "isExecuted (wills sealed_registry 0)" "owners sealed_registry 0 = 1"
  "executor (wills sealed_registry 0) = 2" "ipfsHash (wills sealed_registry 0) = ''QmWill''"
  by (simp_all add: sealed_registry_def eval_defs)

subsection \<open>Token ids\<close>

lemma nested_counter:
  "nft_body True sender now c s = Inr (s', r) \<Longrightarrow> tokenIdCounter s' = tokenIdCounter s \<and> r = None"
  by (cases c) (auto simp: nft_defs Let_def split: if_splits sum.splits)

lemma hook_counter:
  "tokenIdCounter (onERC721Received now hook s) = tokenIdCounter s"
proof -
  have "tokenIdCounter (onERC721Received now hook s) = n" if "tokenIdCounter s = n" for n
    using that
  proof (rule hook_keeps)
    show "tokenIdCounter s' = n"
      if "tokenIdCounter s0 = n" and "nft_body True sender now c s0 = Inr (s', r)"
      for sender c s0 s' r
      using nested_counter [OF that(2)] that(1) by simp
  qed
  then show ?thesis by simp
qed

lemma nft_step_counter:
  "nft_step c s = (s', r) \<Longrightarrow>
     (case r of
        Inr (Some tokenId) \<Rightarrow>
          tokenId = tokenIdCounter s \<and> tokenIdCounter s' = Suc (tokenIdCounter s)
      | _ \<Rightarrow> tokenIdCounter s' = tokenIdCounter s)"
proof (cases c)
  case (fields sender now op)
  assume step: "nft_step c s = (s', r)"
  show ?thesis
  proof (cases "is_creation op")
    case True
    then obtain hash exec delay hook accepted
      where op: "op = CreateWill hash exec delay hook accepted"
      by (cases op) (simp_all add: is_creation_def)
    show ?thesis
    proof (cases rule: create_cases [of sender now hash exec delay hook accepted s])
      case (failed e)
      with step have "s' = s" "r = Inl e" unfolding fields op by simp_all
      then show ?thesis by simp
    next
      case (created s1)
      from created(1) have "tokenIdCounter s1 = Suc (tokenIdCounter s)"
        by (simp add: createWill_mint_Inr)
      then have "tokenIdCounter (createWill_record sender now (tokenIdCounter s) hash exec delay
                   (onERC721Received now hook s1)) = Suc (tokenIdCounter s)"
        by (simp add: createWill_record_def setTokenURI_def hook_counter Let_def)
      moreover from step created(2)
      have "s' = createWill_record sender now (tokenIdCounter s) hash exec delay
                   (onERC721Received now hook s1)" "r = Inr (Some (tokenIdCounter s))"
        unfolding fields op by simp_all
      ultimately show ?thesis by simp
    qed
  next
    case False
    then have same: "nft_body False sender now op s = nft_body True sender now op s"
      by (rule guard_stops_create_only)
    show ?thesis
    proof (cases "nft_body True sender now op s")
      case (Inl e)
      with step same have "s' = s" "r = Inl e"
        unfolding fields by (simp_all add: transact_returning_def)
      then show ?thesis by simp
    next
      case (Inr result)
      obtain s'' r'' where result: "result = (s'', r'')" by (cases result)
      from Inr step same have "s' = s''" "r = Inr r''"
        unfolding fields result by (simp_all add: transact_returning_def)
      with nested_counter [OF Inr [unfolded result]] show ?thesis by simp
    qed
  qed
qed

lemma upt_cons_shift: "c # [Suc c ..< Suc c + n] = [c ..< c + Suc n]"
  by (simp add: upt_conv_Cons)

lemma created_ids_interval:
  "\<exists>n. created_ids calls s = [tokenIdCounter s ..< tokenIdCounter s + n]"
proof (induction calls arbitrary: s)
  case Nil
  have "created_ids [] s = [tokenIdCounter s ..< tokenIdCounter s + 0]" by simp
  then show ?case by blast
next
  case (Cons c cs)
  obtain s' r where step: "nft_step c s = (s', r)" by (cases "nft_step c s")
  note counter = nft_step_counter [OF step]
  obtain n where ih: "created_ids cs s' = [tokenIdCounter s' ..< tokenIdCounter s' + n]"
    using Cons.IH [of s'] by blast
  show ?case
  proof (cases "\<exists>tokenId. r = Inr (Some tokenId)")
    case True
    then obtain tokenId where r: "r = Inr (Some tokenId)" by blast
    with counter have "tokenId = tokenIdCounter s" "tokenIdCounter s' = Suc (tokenIdCounter s)"
      by simp_all
    with r ih step have "created_ids (c # cs) s
        = tokenIdCounter s # [Suc (tokenIdCounter s) ..< Suc (tokenIdCounter s) + n]"
      by simp
    then have "created_ids (c # cs) s = [tokenIdCounter s ..< tokenIdCounter s + Suc n]"
      by (simp only: upt_cons_shift)
    then show ?thesis by blast
  next
    case False
    with counter have same: "tokenIdCounter s' = tokenIdCounter s"
      by (cases r) (auto split: option.splits)
    from False step have "created_ids (c # cs) s = created_ids cs s'"
      by (cases r) (auto split: option.splits)
    with ih same show ?thesis by auto
  qed
qed

lemma created_ids_from:
  "created_ids calls s = [tokenIdCounter s ..< tokenIdCounter s + length (created_ids calls s)]"
proof -
  obtain n where n: "created_ids calls s = [tokenIdCounter s ..< tokenIdCounter s + n]"
    using created_ids_interval by blast
  then have "length (created_ids calls s) = n" by simp
  with n show ?thesis by simp
qed

lemma create_rejects:
  "hash = [] \<or> exec = 0 \<or> exec = sender \<or> delay < MIN_EMERGENCY_DELAY \<or> MAX_EMERGENCY_DELAY < delay
   \<Longrightarrow> \<exists>msg. nft_step (sender, now, CreateWill hash exec delay hook accepted) s
              = (s, Inl (Revert msg))"
  by (auto simp: createWill_def require_def bind_def transact_returning_def)

text \<open>
  C6. The registry starts with \<open>0\<close> as the next token id. Whatever calls are made on it,
  by whatever accounts, the ids that the successful creations return are \<open>0, 1, 2, ...\<close>
  in the order of the calls: strictly increasing, without a gap and never used twice;
  this includes creations by contracts, whatever calls their receiver makes while the
  token is being minted. A successful \<open>createWill\<close> returns the counter and adds one to
  it. A \<open>createWill\<close> with an empty pointer, a null executor, the caller as executor or
  a delay outside \<open>[MIN_EMERGENCY_DELAY, MAX_EMERGENCY_DELAY]\<close> fails and leaves the
  whole state, the counter with it, as it was.
\<close>

theorem create_assigns_sequential_ids:
  "getNextTokenId (deploy_WillsNFT deployer) = 0
   \<and> created_ids calls (deploy_WillsNFT deployer)
       = [0 ..< length (created_ids calls (deploy_WillsNFT deployer))]
   \<and> (nft_step (sender, now, CreateWill hash exec delay hook accepted) s
          = (s', Inr (Some tokenId))
        \<longrightarrow> tokenId = tokenIdCounter s \<and> tokenIdCounter s' = tokenIdCounter s + 1)
   \<and> (hash = [] \<or> exec = 0 \<or> exec = sender \<or> delay < MIN_EMERGENCY_DELAY
         \<or> MAX_EMERGENCY_DELAY < delay
        \<longrightarrow> (\<exists>msg. nft_step (sender, now, CreateWill hash exec delay hook accepted) s
                     = (s, Inl (Revert msg))))"
proof (intro conjI impI)
  show "getNextTokenId (deploy_WillsNFT deployer) = 0"
    by (simp add: getNextTokenId_def deploy_WillsNFT_def)
  show "created_ids calls (deploy_WillsNFT deployer)
       = [0 ..< length (created_ids calls (deploy_WillsNFT deployer))]"
    using created_ids_from [of calls "deploy_WillsNFT deployer"]
    by (simp add: deploy_WillsNFT_def)
  show "tokenId = tokenIdCounter s" and "tokenIdCounter s' = tokenIdCounter s + 1"
    if "nft_step (sender, now, CreateWill hash exec delay hook accepted) s
          = (s', Inr (Some tokenId))"
    using nft_step_counter [OF that] by simp_all
  show "\<exists>msg. nft_step (sender, now, CreateWill hash exec delay hook accepted) s
                     = (s, Inl (Revert msg))"
    if "hash = [] \<or> exec = 0 \<or> exec = sender \<or> delay < MIN_EMERGENCY_DELAY
         \<or> MAX_EMERGENCY_DELAY < delay"
    using that by (rule create_rejects)
qed

theorem create_assigns_sequential_ids_witness:
  "created_ids
     [(1, 100, CreateWill ''QmA'' 2 2592000
                 [(1, CreateWill ''QmX'' 2 2592000 [] True), (1, UpdateWill 0 ''QmY'')] True),
      (1, 101, CreateWill [] 2 2592000 [] True),
      (3, 102, CreateWill ''QmB'' 1 31536000 [] True),
      (3, 103, CreateWill ''QmC'' 3 31536000 [] True)]
     (deploy_WillsNFT 9) = [0, 1]
   \<and> (\<exists>msg. nft_step (1, 101, CreateWill [] 2 2592000 [] True) (deploy_WillsNFT 9)
              = (deploy_WillsNFT 9, Inl (Revert msg)))"
proof -
  have bad: "[] = ([]::string) \<or> (2::nat) = 0 \<or> (2::nat) = 1 \<or> (2592000::nat) < MIN_EMERGENCY_DELAY
         \<or> MAX_EMERGENCY_DELAY < (2592000::nat)"
    by simp
  have "\<exists>msg. nft_step (1, 101, CreateWill [] 2 2592000 [] True) (deploy_WillsNFT 9)
              = (deploy_WillsNFT 9, Inl (Revert msg))"
    using create_assigns_sequential_ids [where deployer = 9 and calls = "[]" and sender = 1
        and now = 101 and hash = "[]" and exec = 2 and delay = 2592000 and hook = "[]"
        and accepted = True and s = "deploy_WillsNFT 9"] bad
    by blast
  moreover have "created_ids
     [(1, 100, CreateWill ''QmA'' 2 2592000
                 [(1, CreateWill ''QmX'' 2 2592000 [] True), (1, UpdateWill 0 ''QmY'')] True),
      (1, 101, CreateWill [] 2 2592000 [] True),
      (3, 102, CreateWill ''QmB'' 1 31536000 [] True),
      (3, 103, CreateWill ''QmC'' 3 31536000 [] True)]
     (deploy_WillsNFT 9) = [0, 1]"
    by (simp add: eval_defs)
  ultimately show ?thesis by blast
qed

subsection \<open>Execution is final\<close>

lemma nested_executed_exist:
  "executed_exist s \<Longrightarrow> nft_body True sender now c s = Inr (s', r) \<Longrightarrow> executed_exist s'"
  by (cases c)
     (auto simp: executed_exist_def nft_defs Let_def split: if_splits sum.splits)

lemma nested_frozen:
  "executed_exist s \<Longrightarrow> isExecuted (wills s tokenId) \<Longrightarrow>
   nft_body True sender now c s = Inr (s', r) \<Longrightarrow>
     will_content (wills s' tokenId) = will_content (wills s tokenId)"
  by (cases c)
     (auto simp: executed_exist_def will_content_def nft_defs Let_def
           split: if_splits sum.splits)

lemma hook_executed_exist:
  "executed_exist s \<Longrightarrow> executed_exist (onERC721Received now hook s)"
  by (erule hook_keeps) (rule nested_executed_exist)

lemma hook_frozen:
  assumes "executed_exist s" and "isExecuted (wills s tokenId)"
  shows "will_content (wills (onERC721Received now hook s) tokenId) = will_content (wills s tokenId)"
proof -
  define d where "d = will_content (wills s tokenId)"
  have "executed_exist s \<and> isExecuted (wills s tokenId) \<and> will_content (wills s tokenId) = d"
    using assms d_def by simp
  then have "executed_exist (onERC721Received now hook s)
      \<and> isExecuted (wills (onERC721Received now hook s) tokenId)
      \<and> will_content (wills (onERC721Received now hook s) tokenId) = d"
  proof (rule hook_keeps)
    fix sender c s0 s' r
    assume inv: "executed_exist s0 \<and> isExecuted (wills s0 tokenId)
        \<and> will_content (wills s0 tokenId) = d"
      and body: "nft_body True sender now c s0 = Inr (s', r)"
    from inv body have same: "will_content (wills s' tokenId) = will_content (wills s0 tokenId)"
      by (intro nested_frozen) simp_all
    then have "isExecuted (wills s' tokenId)"
      using inv by (simp add: will_content_def)
    with same inv nested_executed_exist [OF _ body]
    show "executed_exist s' \<and> isExecuted (wills s' tokenId)
        \<and> will_content (wills s' tokenId) = d"
      by simp
  qed
  then show ?thesis by (simp add: d_def)
qed

lemma step_cases:
  obtains (failed) e where "nft_step (sender, now, c) s = (s, Inl e)"
  | (created) hash exec delay hook accepted s1 where
      "c = CreateWill hash exec delay hook accepted"
      "createWill_mint sender hash exec delay s = Inr (s1, tokenIdCounter s)"
      "fst (nft_step (sender, now, c) s)
         = createWill_record sender now (tokenIdCounter s) hash exec delay
             (onERC721Received now hook s1)"
  | (other) s' where "nft_body True sender now c s = Inr (s', None)"
      "fst (nft_step (sender, now, c) s) = s'"
proof (cases "is_creation c")
  case True
  then obtain hash exec delay hook accepted
    where c: "c = CreateWill hash exec delay hook accepted"
    by (cases c) (simp_all add: is_creation_def)
  show ?thesis
  proof (cases rule: create_cases [of sender now hash exec delay hook accepted s])
    case (failed e)
    then show ?thesis unfolding c [symmetric] by (rule that(1))
  next
    case (created s1)
    show ?thesis
      by (rule that(2) [OF c created(1)]) (simp only: c created(2) fst_conv)
  qed
next
  case False
  then have same: "nft_body False sender now c s = nft_body True sender now c s"
    by (rule guard_stops_create_only)
  show ?thesis
  proof (cases "nft_body True sender now c s")
    case (Inl e)
    with same have "nft_step (sender, now, c) s = (s, Inl e)"
      by (simp add: transact_returning_def)
    then show ?thesis by (rule that(1))
  next
    case (Inr result)
    obtain s' r where result: "result = (s', r)" by (cases result)
    from nested_counter [OF Inr [unfolded result]] have r: "r = None" by simp
    show ?thesis
      by (rule that(3) [of s'])
         (use Inr same in \<open>simp_all add: result r transact_returning_def\<close>)
  qed
qed

lemma step_executed_exist:
  "executed_exist s \<Longrightarrow> executed_exist (fst (nft_step c s))"
proof -
  assume inv: "executed_exist s"
  obtain sender now op where c: "c = (sender, now, op)" by (cases c)
  show ?thesis
  proof (cases rule: step_cases [of sender now op s])
    case (failed e)
    with inv show ?thesis unfolding c by simp
  next
    case (created hash exec delay hook accepted s1)
    from created(2) inv have "executed_exist s1"
      by (auto simp: createWill_mint_Inr executed_exist_def)
    then have "executed_exist (onERC721Received now hook s1)"
      by (rule hook_executed_exist)
    then show ?thesis
      unfolding c created(3)
      by (simp add: executed_exist_def createWill_record_def setTokenURI_def Let_def)
  next
    case (other s')
    with inv nested_executed_exist show ?thesis unfolding c by metis
  qed
qed

lemma step_frozen:
  "executed_exist s \<Longrightarrow> isExecuted (wills s tokenId) \<Longrightarrow>
     will_content (wills (fst (nft_step c s)) tokenId) = will_content (wills s tokenId)"
proof -
  assume inv: "executed_exist s" and flag: "isExecuted (wills s tokenId)"
  obtain sender now op where c: "c = (sender, now, op)" by (cases c)
  show ?thesis
  proof (cases rule: step_cases [of sender now op s])
    case (failed e)
    then show ?thesis unfolding c by simp
  next
    case (created hash exec delay hook accepted s1)
    from inv flag have "owners s tokenId \<noteq> 0" by (simp add: executed_exist_def)
    with created(2) have other: "tokenId \<noteq> tokenIdCounter s" and same: "wills s1 = wills s"
      by (auto simp: createWill_mint_Inr)
    from created(2) inv have "executed_exist s1"
      by (auto simp: createWill_mint_Inr executed_exist_def)
    then have "will_content (wills (onERC721Received now hook s1) tokenId)
        = will_content (wills s1 tokenId)"
      using flag same by (intro hook_frozen) simp_all
    with other same show ?thesis
      unfolding c created(3)
      by (simp add: createWill_record_def setTokenURI_def Let_def)
  next
    case (other s')
    with inv flag nested_frozen [of s tokenId sender now op s' None] show ?thesis
      unfolding c by simp
  qed
qed

lemma run_executed_exist:
  "executed_exist s \<Longrightarrow> executed_exist (nft_run calls s)"
  by (induction calls arbitrary: s) (simp_all add: step_executed_exist del: nft_step.simps)

lemma run_frozen:
  "executed_exist s \<Longrightarrow> isExecuted (wills s tokenId) \<Longrightarrow>
     will_content (wills (nft_run calls s) tokenId) = will_content (wills s tokenId)"
proof (induction calls arbitrary: s)
  case Nil
  show ?case by simp
next
  case (Cons c cs)
  let ?s' = "fst (nft_step c s)"
  have same: "will_content (wills ?s' tokenId) = will_content (wills s tokenId)"
    using Cons.prems by (rule step_frozen)
  then have "isExecuted (wills ?s' tokenId)"
    using Cons.prems(2) by (simp add: will_content_def)
  with Cons.IH [of ?s'] step_executed_exist [OF Cons.prems(1), of c] same
  show ?case by simp
qed

lemma deploy_executed_exist: "executed_exist (deploy_WillsNFT deployer)"
  by (simp add: executed_exist_def deploy_WillsNFT_def empty_will_def)

lemma sealed_exists:
  assumes "s = nft_run calls (deploy_WillsNFT deployer)" and "isExecuted (wills s tokenId)"
  shows "owners s tokenId \<noteq> 0"
  using assms run_executed_exist [OF deploy_executed_exist, of calls deployer]
  by (simp add: executed_exist_def)

text \<open>
  C2, as the code has it. Let \<open>s\<close> be a state in which the registry is left by calls
  made on it since its deployment, by any accounts, creations by contracts whose
  receiver calls back included, and let will \<open>tokenId\<close> be executed in \<open>s\<close>. Then
  every \<open>updateWill\<close>, \<open>updateExecutor\<close>, \<open>updateEmergencyDelay\<close>, \<open>executeWill\<close>,
  \<open>emergencyExecuteWill\<close>, \<open>executeWillByContract\<close> and \<open>emergencyExecuteWillByContract\<close>
  on that id fails. Each function checks who calls before it checks the executed flag:
  the failure is the already-executed one (\<open>Cannot update executed will\<close>,
  \<open>Will already executed\<close>) exactly when the caller passes that earlier check (the token
  holder for the updates, the designated executor for \<open>executeWill\<close>, an authorized
  contract naming the executor for the by-contract functions), and the authorization
  failure otherwise; \<open>emergencyExecuteWill\<close> has no earlier check and always fails as
  already executed. Whatever calls follow, again with creations whose receiver calls
  back, every field of the record but the viewer set, the executed flag included, stays
  what it was. The statement is about the states between calls: nothing is said of the
  flag of a will while the \<open>createWill\<close> that creates it is still running.
\<close>

theorem executed_will_is_sealed:
  assumes "s = nft_run calls (deploy_WillsNFT deployer)" and "isExecuted (wills s tokenId)"
  shows
    "updateWill sender now tokenId hash s
       = Inl (Revert (if owners s tokenId = sender then ''Cannot update executed will''
                      else ''Only owner can update will''))
     \<and> updateExecutor sender now tokenId exec s
       = Inl (Revert (if owners s tokenId = sender then ''Cannot update executed will''
                      else ''Only owner can update executor''))
     \<and> updateEmergencyDelay sender now tokenId delay s
       = Inl (Revert (if owners s tokenId = sender then ''Cannot update executed will''
                      else ''Only owner can update emergency delay''))
     \<and> nft_executeWill sender now tokenId s
       = Inl (Revert (if executor (wills s tokenId) = sender then ''Will already executed''
                      else ''Only executor can execute will''))
     \<and> nft_emergencyExecuteWill sender now tokenId s = Inl (Revert ''Will already executed'')
     \<and> executeWillByContract sender now tokenId exec s
       = Inl (Revert (if \<not> authorizedContracts s sender then ''Contract not authorized''
                      else if executor (wills s tokenId) \<noteq> exec then ''Invalid executor''
                      else ''Will already executed''))
     \<and> emergencyExecuteWillByContract sender now tokenId exec s
       = Inl (Revert (if authorizedContracts s sender then ''Will already executed''
                      else ''Contract not authorized''))
     \<and> will_content (wills (nft_run later s) tokenId) = will_content (wills s tokenId)"
proof -
  have ex: "owners s tokenId \<noteq> 0"
    using assms by (rule sealed_exists)
  have inv: "executed_exist s"
    using assms(1) run_executed_exist [OF deploy_executed_exist] by simp
  have "will_content (wills (nft_run later s) tokenId) = will_content (wills s tokenId)"
    using inv assms(2) by (rule run_frozen)
  with ex assms(2) show ?thesis
    by (simp add: updateWill_def updateExecutor_def updateEmergencyDelay_def nft_executeWill_def
        nft_emergencyExecuteWill_def executeWillByContract_def emergencyExecuteWillByContract_def
        require_def bind_def ownerOf_def ownerExists_def)
qed

theorem executed_will_is_sealed_witness:
  "isExecuted (wills sealed_registry 0)
   \<and> updateWill 1 3000 0 ''QmNew'' sealed_registry = Inl (Revert ''Cannot update executed will'')
   \<and> nft_executeWill 2 3000 0 sealed_registry = Inl (Revert ''Will already executed'')
   \<and> ipfsHash (wills (nft_run [(1, 3000, UpdateWill 0 ''QmNew''),
                                 (4, 3100, CreateWill ''QmNext'' 5 2592000
                                             [(1, UpdateWill 0 ''QmNew''),
                                              (6, EmergencyExecuteWill 1)] True)]
                         sealed_registry) 0) = ''QmWill''"
proof -
  note t = executed_will_is_sealed [OF sealed_registry_def sealed_registry_facts(1),
      where now = 3000 and hash = "''QmNew''"
        and later = "[(1, 3000, UpdateWill 0 ''QmNew''),
                      (4, 3100, CreateWill ''QmNext'' 5 2592000
                                  [(1, UpdateWill 0 ''QmNew''), (6, EmergencyExecuteWill 1)] True)]"]
  from t [where sender = 1] t [where sender = 2] show ?thesis
    by (simp add: will_content_def sealed_registry_facts)
qed

text \<open>
  The claim as written fails: on the executed will 0 of \<open>sealed_registry\<close>, held by
  account 1, an \<open>updateWill\<close> by account 3 fails as not coming from the owner, not as
  already executed.
\<close>

theorem stranger_update_of_executed_will:
  "isExecuted (wills sealed_registry 0)
   \<and> updateWill 3 3000 0 ''QmNew'' sealed_registry = Inl (Revert ''Only owner can update will'')
   \<and> updateWill 3 3000 0 ''QmNew'' sealed_registry \<noteq> Inl (Revert ''Cannot update executed will'')"
  by (simp add: sealed_registry_def eval_defs)

text \<open>
  What the statement above leaves out is the time a will's own creation is running. In
  \<open>reentered_registry\<close> the receiver of token 0 has \<open>emergencyExecuteWill\<close> called
  while the token is minted and the record not yet written: the call succeeds, as the
  event it emitted shows, and the second half of \<open>createWill\<close> then sets the flag to
  false, so that the will can be updated afterwards.
\<close>

lemma creation_resets_the_flag:
  "nft_events reentered_registry = [WillExecuted 0 1 1000, WillCreated 0 1 ''QmWill'']"
  "\<not> isExecuted (wills reentered_registry 0)"
  "\<exists>s'. updateWill 1 2000 0 ''QmNew'' reentered_registry = Inr s'"
  by (simp_all add: reentered_registry_def eval_defs)

subsection \<open>The emergency clock\<close>

lemma nested_deadlines_fit:
  "deadlines_fit s \<Longrightarrow> now \<le> CLOCK_MAX \<Longrightarrow> nft_body True sender now c s = Inr (s', r)
   \<Longrightarrow> deadlines_fit s'"
  by (cases c)
     (auto simp: deadlines_fit_def nft_defs Let_def split: if_splits sum.splits)

lemma step_deadlines_fit:
  "deadlines_fit s \<Longrightarrow> now \<le> CLOCK_MAX \<Longrightarrow> deadlines_fit (fst (nft_step (sender, now, c) s))"
proof -
  assume inv: "deadlines_fit s" and clock: "now \<le> CLOCK_MAX"
  show ?thesis
  proof (cases rule: step_cases [of sender now c s])
    case (failed e)
    with inv show ?thesis by simp
  next
    case (created hash exec delay hook accepted s1)
    from created(2) inv have "deadlines_fit s1" and delay: "delay \<le> MAX_EMERGENCY_DELAY"
      by (auto simp: createWill_mint_Inr deadlines_fit_def)
    then have "deadlines_fit (onERC721Received now hook s1)"
      using clock nested_deadlines_fit by (elim hook_keeps) blast
    with delay clock show ?thesis
      unfolding created(3)
      by (simp add: deadlines_fit_def createWill_record_def setTokenURI_def Let_def)
  next
    case (other s')
    with inv clock nested_deadlines_fit show ?thesis by metis
  qed
qed

lemma run_deadlines_fit:
  "deadlines_fit s \<Longrightarrow> \<forall>(sender, now, c) \<in> set calls. now \<le> CLOCK_MAX \<Longrightarrow>
     deadlines_fit (nft_run calls s)"
proof (induction calls arbitrary: s)
  case Nil
  then show ?case by simp
next
  case (Cons call calls)
  obtain sender now c where call: "call = (sender, now, c)" by (cases call)
  with Cons.prems have "deadlines_fit (fst (nft_step call s))"
    using step_deadlines_fit [of s now sender c] by simp
  with Cons show ?case by simp
qed

lemma deploy_deadlines_fit: "deadlines_fit (deploy_WillsNFT deployer)"
  by (simp add: deadlines_fit_def deploy_WillsNFT_def empty_will_def)

lemma deadlines_fit_no_overflow:
  "deadlines_fit s \<Longrightarrow>
     lastUpdateAt (wills s tokenId) + emergencyDelay (wills s tokenId) \<le> UINT256_MAX"
proof -
  assume "deadlines_fit s"
  then have "lastUpdateAt (wills s tokenId) \<le> UINT256_MAX - MAX_EMERGENCY_DELAY"
    and "emergencyDelay (wills s tokenId) \<le> MAX_EMERGENCY_DELAY"
    by (simp_all add: deadlines_fit_def CLOCK_MAX_def)
  moreover have "MAX_EMERGENCY_DELAY \<le> UINT256_MAX"
    by (simp add: MAX_EMERGENCY_DELAY_def UINT256_MAX_def)
  ultimately show ?thesis by linarith
qed

text \<open>
  C5. \<open>canEmergencyExecute\<close> is a function of the block timestamp and the state to a
  boolean; it has no state to return. It answers false for a token that does not exist
  and for an executed will. Otherwise, the deadline \<open>lastUpdateAt + emergencyDelay\<close>
  being a \<^verbatim>\<open>uint256\<close>, it answers false at every timestamp before the deadline and true
  at the deadline and after, whatever the id and the delay. The deadline is a
  \<^verbatim>\<open>uint256\<close> in every state the registry reaches from its deployment as long as the
  block timestamps stay below \<open>CLOCK_MAX\<close>, 365 days short of the largest \<^verbatim>\<open>uint256\<close>; in
  such a state the answer is true exactly for an existing will that is not executed and
  whose deadline has come.
\<close>

theorem canEmergencyExecute_timing:
  "(\<not> ownerExists s tokenId \<or> isExecuted (wills s tokenId)
      \<longrightarrow> canEmergencyExecute now tokenId s = Inr False)
   \<and> (ownerExists s tokenId \<and> \<not> isExecuted (wills s tokenId)
        \<and> lastUpdateAt (wills s tokenId) + emergencyDelay (wills s tokenId) \<le> UINT256_MAX
      \<longrightarrow> canEmergencyExecute now tokenId s
           = Inr (lastUpdateAt (wills s tokenId) + emergencyDelay (wills s tokenId) \<le> now))
   \<and> (s = nft_run calls (deploy_WillsNFT deployer)
        \<and> (\<forall>(sender, t, c) \<in> set calls. t \<le> CLOCK_MAX)
      \<longrightarrow> canEmergencyExecute now tokenId s
           = Inr (ownerExists s tokenId \<and> \<not> isExecuted (wills s tokenId)
                  \<and> lastUpdateAt (wills s tokenId) + emergencyDelay (wills s tokenId) \<le> now))"
proof (intro conjI impI)
  show "canEmergencyExecute now tokenId s = Inr False"
    if "\<not> ownerExists s tokenId \<or> isExecuted (wills s tokenId)"
    using that by (auto simp: canEmergencyExecute_def)
  show "canEmergencyExecute now tokenId s
           = Inr (lastUpdateAt (wills s tokenId) + emergencyDelay (wills s tokenId) \<le> now)"
    if "ownerExists s tokenId \<and> \<not> isExecuted (wills s tokenId)
        \<and> lastUpdateAt (wills s tokenId) + emergencyDelay (wills s tokenId) \<le> UINT256_MAX"
    using that
    by (simp add: canEmergencyExecute_def emergency_deadline_def checked_add_def bind_def)
  show "canEmergencyExecute now tokenId s
           = Inr (ownerExists s tokenId \<and> \<not> isExecuted (wills s tokenId)
                  \<and> lastUpdateAt (wills s tokenId) + emergencyDelay (wills s tokenId) \<le> now)"
    if "s = nft_run calls (deploy_WillsNFT deployer)
        \<and> (\<forall>(sender, t, c) \<in> set calls. t \<le> CLOCK_MAX)"
  proof -
    have "deadlines_fit s"
      using that run_deadlines_fit [OF deploy_deadlines_fit, of calls deployer] by blast
    from deadlines_fit_no_overflow [OF this, of tokenId] show ?thesis
      by (simp add: canEmergencyExecute_def emergency_deadline_def checked_add_def bind_def)
  qed
qed

theorem canEmergencyExecute_timing_witness:
  "canEmergencyExecute 2592999 0 fresh_will = Inr False
   \<and> canEmergencyExecute 2593000 0 fresh_will = Inr True
   \<and> canEmergencyExecute 2593001 0 fresh_will = Inr True
   \<and> canEmergencyExecute 2593000 7 fresh_will = Inr False
   \<and> canEmergencyExecute 9999999 0 sealed_registry = Inr False"
proof -
  have clock: "\<forall>(sender, t, c) \<in> set [(1, 1000, CreateWill ''QmWill'' 2 2592000 [] True)].
                  t \<le> CLOCK_MAX"
    by (simp add: CLOCK_MAX_def UINT256_MAX_def MAX_EMERGENCY_DELAY_def)
  note at = canEmergencyExecute_timing [where s = fresh_will and deployer = 9
      and calls = "[(1, 1000, CreateWill ''QmWill'' 2 2592000 [] True)]"]
  have "canEmergencyExecute 2592999 0 fresh_will = Inr False"
    using at [where tokenId = 0 and now = 2592999]
    by (simp add: fresh_will_facts UINT256_MAX_def)
  moreover have "canEmergencyExecute 2593000 0 fresh_will = Inr True"
    using at [where tokenId = 0 and now = 2593000]
    by (simp add: fresh_will_facts UINT256_MAX_def)
  moreover have "canEmergencyExecute 2593001 0 fresh_will = Inr True"
    using at [where tokenId = 0 and now = 2593001] clock fresh_will_def
    by (simp add: fresh_will_facts)
  moreover have "canEmergencyExecute 2593000 7 fresh_will = Inr False"
    using at [where tokenId = 7 and now = 2593000]
    by (simp add: fresh_will_facts)
  moreover have "canEmergencyExecute 9999999 0 sealed_registry = Inr False"
    using canEmergencyExecute_timing [where s = sealed_registry and tokenId = 0 and now = 9999999]
    by (simp add: sealed_registry_facts)
  ultimately show ?thesis by blast
qed

subsection \<open>Ownership follows the token\<close>

lemma owner_gate:
  assumes "owners s tokenId = holder" and "holder \<noteq> 0"
  shows "(updateWill sender now tokenId hash s = Inl (Revert ''Only owner can update will''))
       = (sender \<noteq> holder)"
    and "(updateExecutor sender now tokenId exec s = Inl (Revert ''Only owner can update executor''))
       = (sender \<noteq> holder)"
    and "(updateEmergencyDelay sender now tokenId delay s
          = Inl (Revert ''Only owner can update emergency delay'')) = (sender \<noteq> holder)"
    and "(authorizeViewer sender tokenId viewer s = Inl (Revert ''Only owner can authorize viewers''))
       = (sender \<noteq> holder)"
    and "(revokeViewer sender tokenId viewer s = Inl (Revert ''Only owner can revoke viewers''))
       = (sender \<noteq> holder)"
    and "(getWillData sender tokenId s = Inl (Revert ''Not authorized to view this will''))
       = (sender \<noteq> holder \<and> sender \<noteq> executor (wills s tokenId)
          \<and> \<not> authorizedViewers (wills s tokenId) sender)"
  using assms
  by (simp_all add: updateWill_def updateExecutor_def updateEmergencyDelay_def authorizeViewer_def
      revokeViewer_def getWillData_def ownerOf_def ownerExists_def require_def bind_def Let_def)

lemma holder_rights:
  assumes "owners s tokenId = holder" and "holder \<noteq> 0"
  shows "(\<exists>s''. updateWill holder now tokenId hash s = Inr s'')
       = (\<not> isExecuted (wills s tokenId) \<and> hash \<noteq> [])"
    and "(\<exists>s''. updateExecutor holder now tokenId exec s = Inr s'')
       = (\<not> isExecuted (wills s tokenId) \<and> exec \<noteq> 0 \<and> exec \<noteq> holder)"
    and "(\<exists>s''. updateEmergencyDelay holder now tokenId delay s = Inr s'')
       = (\<not> isExecuted (wills s tokenId)
          \<and> MIN_EMERGENCY_DELAY \<le> delay \<and> delay \<le> MAX_EMERGENCY_DELAY)"
    and "(\<exists>s''. authorizeViewer holder tokenId viewer s = Inr s'') = (viewer \<noteq> 0)"
    and "\<exists>s''. revokeViewer holder tokenId viewer s = Inr s''"
    and "\<exists>d. getWillData holder tokenId s = Inr d"
  using assms
  by (simp_all add: updateWill_def updateExecutor_def updateEmergencyDelay_def authorizeViewer_def
      revokeViewer_def getWillData_def ownerOf_def ownerExists_def require_def bind_def Let_def)

lemma transfer_by_holder:
  assumes "owners s tokenId = holder" and "holder \<noteq> 0" and "dst \<noteq> 0"
  shows "transferFrom holder holder dst tokenId s
     = Inr (s\<lparr>owners := (owners s)(tokenId := dst),
               tokenApprovals := (tokenApprovals s)(tokenId := 0)\<rparr>)"
  using assms by (simp add: transferFrom_def isAuthorized_def)

text \<open>
  C10. A will is token \<open>tokenId\<close> of an ERC721 contract, and who may act as its owner is
  decided by who holds the token, \<open>owners s tokenId\<close> (what \<^verbatim>\<open>ownerOf\<close> returns), never
  by the \<open>creator\<close> field. In any state where the token has a holder: \<open>updateWill\<close>,
  \<open>updateExecutor\<close>, \<open>updateEmergencyDelay\<close>, \<open>authorizeViewer\<close> and \<open>revokeViewer\<close>
  fail as not coming from the owner exactly when the caller is not the holder, and
  \<open>getWillData\<close> refuses exactly the callers that are neither the holder nor the executor
  nor an authorized viewer. The holder can transfer the token to any account \<open>dst\<close> but
  the null one, the executor included; the will records, \<open>creator\<close> with them, are
  untouched by the transfer. In the state \<open>s'\<close> after it the same holds with \<open>dst\<close> as
  the holder: the former holder is refused, and the new one updates the document, the
  executor and the delay of a will that is not executed, grants and revokes viewers,
  and reads the record.
\<close>

theorem token_holder_is_owner:
  assumes "owners s tokenId = holder" and "holder \<noteq> 0" and "dst \<noteq> 0"
    and "s' = s\<lparr>owners := (owners s)(tokenId := dst),
                 tokenApprovals := (tokenApprovals s)(tokenId := 0)\<rparr>"
  shows
    "(updateWill sender now tokenId hash s = Inl (Revert ''Only owner can update will''))
       = (sender \<noteq> holder)
     \<and> (updateExecutor sender now tokenId exec s = Inl (Revert ''Only owner can update executor''))
       = (sender \<noteq> holder)
     \<and> (updateEmergencyDelay sender now tokenId delay s
          = Inl (Revert ''Only owner can update emergency delay'')) = (sender \<noteq> holder)
     \<and> (authorizeViewer sender tokenId viewer s = Inl (Revert ''Only owner can authorize viewers''))
       = (sender \<noteq> holder)
     \<and> (revokeViewer sender tokenId viewer s = Inl (Revert ''Only owner can revoke viewers''))
       = (sender \<noteq> holder)
     \<and> (getWillData sender tokenId s = Inl (Revert ''Not authorized to view this will''))
       = (sender \<noteq> holder \<and> sender \<noteq> executor (wills s tokenId)
          \<and> \<not> authorizedViewers (wills s tokenId) sender)
     \<and> transferFrom holder holder dst tokenId s = Inr s'
     \<and> wills s' = wills s
     \<and> ownerOf s' tokenId = Inr dst
     \<and> (updateWill sender now tokenId hash s' = Inl (Revert ''Only owner can update will''))
       = (sender \<noteq> dst)
     \<and> (updateExecutor sender now tokenId exec s' = Inl (Revert ''Only owner can update executor''))
       = (sender \<noteq> dst)
     \<and> (updateEmergencyDelay sender now tokenId delay s'
          = Inl (Revert ''Only owner can update emergency delay'')) = (sender \<noteq> dst)
     \<and> (authorizeViewer sender tokenId viewer s' = Inl (Revert ''Only owner can authorize viewers''))
       = (sender \<noteq> dst)
     \<and> (revokeViewer sender tokenId viewer s' = Inl (Revert ''Only owner can revoke viewers''))
       = (sender \<noteq> dst)
     \<and> (getWillData sender tokenId s' = Inl (Revert ''Not authorized to view this will''))
       = (sender \<noteq> dst \<and> sender \<noteq> executor (wills s tokenId)
          \<and> \<not> authorizedViewers (wills s tokenId) sender)
     \<and> (\<exists>s''. updateWill dst now tokenId hash s' = Inr s'')
       = (\<not> isExecuted (wills s tokenId) \<and> hash \<noteq> [])
     \<and> (\<exists>s''. updateExecutor dst now tokenId exec s' = Inr s'')
       = (\<not> isExecuted (wills s tokenId) \<and> exec \<noteq> 0 \<and> exec \<noteq> dst)
     \<and> (\<exists>s''. updateEmergencyDelay dst now tokenId delay s' = Inr s'')
       = (\<not> isExecuted (wills s tokenId)
          \<and> MIN_EMERGENCY_DELAY \<le> delay \<and> delay \<le> MAX_EMERGENCY_DELAY)
     \<and> (\<exists>s''. authorizeViewer dst tokenId viewer s' = Inr s'') = (viewer \<noteq> 0)
     \<and> (\<exists>s''. revokeViewer dst tokenId viewer s' = Inr s'')
     \<and> (\<exists>d. getWillData dst tokenId s' = Inr d)"
proof -
  have now_dst: "owners s' tokenId = dst" and same: "wills s' = wills s"
    using assms(4) by simp_all
  note before = owner_gate [OF assms(1,2)]
  note after = owner_gate [OF now_dst assms(3)]
  note rights = holder_rights [OF now_dst assms(3)]
  have moved: "transferFrom holder holder dst tokenId s = Inr s'"
    using transfer_by_holder [OF assms(1,2,3)] assms(4) by simp
  have new_owner: "ownerOf s' tokenId = Inr dst"
    using now_dst assms(3) by (simp add: ownerOf_def)
  show ?thesis
    unfolding before after rights(1-4)
    using moved same new_owner rights(5,6) by simp
qed

theorem token_holder_is_owner_witness:
  "transferFrom 1 1 2 0 fresh_will = Inr handed_to_executor
   \<and> creator (wills handed_to_executor 0) = 1
   \<and> executor (wills handed_to_executor 0) = 2
   \<and> ownerOf handed_to_executor 0 = Inr 2
   \<and> updateWill 1 1600 0 ''QmNew'' handed_to_executor = Inl (Revert ''Only owner can update will'')
   \<and> (\<exists>s''. updateWill 2 1600 0 ''QmNew'' handed_to_executor = Inr s'')
   \<and> (\<exists>s''. updateExecutor 2 1600 0 5 handed_to_executor = Inr s'')"
proof -
  have after: "handed_to_executor = fresh_will\<lparr>owners := (owners fresh_will)(0 := 2),
                 tokenApprovals := (tokenApprovals fresh_will)(0 := 0)\<rparr>"
    by (simp add: handed_to_executor_def transferFrom_def isAuthorized_def fresh_will_facts
        transact_returning_def returning_nothing_def bind_def)
  have two: "(2::nat) \<noteq> 0" and one: "(1::nat) \<noteq> 0"
    by simp_all
  note t = token_holder_is_owner [OF fresh_will_facts(5) one two after, of _ 1600 "''QmNew''" 5]
  from t [of 1] t [of 2] show ?thesis
    by (simp add: fresh_will_facts)
qed

text \<open>
  C8. \<open>createWill\<close> and \<open>updateExecutor\<close> refuse the caller as executor (first two
  lines), but the transfer of the token has no such check: after account 1 creates
  will 0 with executor 2 and transfers token 0 to account 2, the holder of the will is
  its executor (last two lines).
\<close>

theorem transfer_makes_executor_the_owner:
  "createWill 1 1000 ''QmWill'' 1 2592000 Inr (deploy_WillsNFT 9)
     = Inl (Revert ''Cannot set self as executor'')
   \<and> updateExecutor 1 1500 0 1 fresh_will = Inl (Revert ''Cannot set self as executor'')
   \<and> handed_to_executor
     = nft_run [(1, 1000, CreateWill ''QmWill'' 2 2592000 [] True), (1, 1500, TransferFrom 1 2 0)]
         (deploy_WillsNFT 9)
   \<and> ownerOf handed_to_executor 0 = Inr (executor (wills handed_to_executor 0))"
  by (simp add: handed_to_executor_def fresh_will_def eval_defs)

section \<open>Properties of the distribution passes\<close>

lemma bind_Inr: "(bind m f = Inr y) = (\<exists>x. m = Inr x \<and> f x = Inr y)"
  by (cases m) (simp_all add: bind_def)

lemma require_Inr: "(require c msg rest = Inr y) = (c \<and> rest = Inr y)"
  by (simp add: require_def)

lemma checked_add_Inr: "(checked_add a b = Inr c) = (a + b \<le> UINT256_MAX \<and> c = a + b)"
  by (auto simp: checked_add_def)

lemma checked_mul_Inr: "(checked_mul a b = Inr c) = (a * b \<le> UINT256_MAX \<and> c = a * b)"
  by (auto simp: checked_mul_def)

lemma checked_sub_Inr: "(checked_sub a b = Inr c) = (b \<le> a \<and> c = a - b)"
  by (auto simp: checked_sub_def)

lemma same_control_refl: "same_control w w"
  by (simp add: same_control_def)

lemma same_control_trans: "same_control a b \<Longrightarrow> same_control b c \<Longrightarrow> same_control a c"
  by (simp add: same_control_def)

lemma total_amount_sum:
  "total_amount ds acc = Inr T \<Longrightarrow> T = acc + sum_list (map eth_amount ds)"
proof (induction ds arbitrary: acc)
  case Nil
  then show ?case by simp
next
  case (Cons d ds)
  from Cons.prems have "total_amount ds (acc + eth_amount d) = Inr T"
    by (simp add: checked_add_def split: if_splits)
  from Cons.IH [OF this] show ?case by simp
qed

lemma total_amount_cases:
  "total_amount ds acc = Inl Panic \<or> total_amount ds acc = Inr (acc + sum_list (map eth_amount ds))"
proof (induction ds arbitrary: acc)
  case Nil
  show ?case by simp
next
  case (Cons d ds)
  show ?case
    using Cons.IH [of "acc + eth_amount d"]
    by (auto simp: checked_add_def add.assoc)
qed

lemma pay_beneficiary_effect:
  assumes "pay_beneficiary tokenId d w = Inr w'"
  shows "same_control w w'"
    and "transfers (ledger w')
           = transfers (ledger w) @ [EthTransfer (this w) (eth_beneficiary d) (eth_amount d)]"
    and "x \<noteq> this w \<Longrightarrow> eth (ledger w') x
           = eth (ledger w) x + (if eth_beneficiary d = x then eth_amount d else 0)"
    and "eth_beneficiary d \<noteq> this w \<Longrightarrow>
           eth (ledger w') (this w) + eth_amount d = eth (ledger w) (this w)"
    and "erc20 (ledger w') = erc20 (ledger w)" and "erc721 (ledger w') = erc721 (ledger w)"
    and "eth_beneficiary d \<noteq> 0" and "0 < eth_amount d"
  using assms
  by (auto simp: pay_beneficiary_def eth_transfer_def emit_def same_control_def
      require_def bind_def Let_def split: if_splits)

lemma pay_beneficiaries_effect:
  "pay_beneficiaries tokenId ds w = Inr w' \<Longrightarrow>
     same_control w w'
     \<and> transfers (ledger w') = transfers (ledger w)
          @ map (\<lambda>d. EthTransfer (this w) (eth_beneficiary d) (eth_amount d)) ds
     \<and> (\<forall>x. x \<noteq> this w \<longrightarrow> eth (ledger w') x = eth (ledger w) x + eth_received ds x)
     \<and> (this w \<notin> eth_beneficiary ` set ds \<longrightarrow>
          eth (ledger w') (this w) + sum_list (map eth_amount ds) = eth (ledger w) (this w))
     \<and> erc20 (ledger w') = erc20 (ledger w) \<and> erc721 (ledger w') = erc721 (ledger w)
     \<and> (\<forall>d \<in> set ds. eth_beneficiary d \<noteq> 0 \<and> 0 < eth_amount d)"
proof (induction ds arbitrary: w)
  case Nil
  then show ?case by (simp add: same_control_refl eth_received_def)
next
  case (Cons d ds)
  from Cons.prems obtain w1 where
    head: "pay_beneficiary tokenId d w = Inr w1" and
    tail: "pay_beneficiaries tokenId ds w1 = Inr w'"
    by (auto split: sum.splits)
  note h = pay_beneficiary_effect [OF head]
  note t = Cons.IH [OF tail]
  have this1: "this w1 = this w"
    using h(1) by (simp add: same_control_def)
  have "same_control w w'"
    using h(1) t by (blast intro: same_control_trans)
  moreover have "transfers (ledger w') = transfers (ledger w)
          @ map (\<lambda>d. EthTransfer (this w) (eth_beneficiary d) (eth_amount d)) (d # ds)"
    using h(2) t this1 by simp
  moreover have "\<forall>x. x \<noteq> this w \<longrightarrow> eth (ledger w') x = eth (ledger w) x + eth_received (d # ds) x"
    using h(3) t this1 by (auto simp: eth_received_def)
  moreover have "this w \<notin> eth_beneficiary ` set (d # ds) \<longrightarrow>
          eth (ledger w') (this w) + sum_list (map eth_amount (d # ds)) = eth (ledger w) (this w)"
  proof
    assume out: "this w \<notin> eth_beneficiary ` set (d # ds)"
    then have "eth (ledger w1) (this w) + eth_amount d = eth (ledger w) (this w)"
      using h(4) by auto
    moreover have "eth (ledger w') (this w) + sum_list (map eth_amount ds) = eth (ledger w1) (this w)"
      using out t this1 by auto
    ultimately show "eth (ledger w') (this w) + sum_list (map eth_amount (d # ds))
        = eth (ledger w) (this w)"
      by simp
  qed
  moreover have "erc20 (ledger w') = erc20 (ledger w)" "erc721 (ledger w') = erc721 (ledger w)"
    using h(5,6) t by simp_all
  moreover have "\<forall>d' \<in> set (d # ds). eth_beneficiary d' \<noteq> 0 \<and> 0 < eth_amount d'"
    using h(7,8) t by simp
  ultimately show ?case by blast
qed

lemma distributeETH_total:
  assumes "distributeETH tokenId ds w = Inr w'"
  shows "total_amount ds 0 = Inr (sum_list (map eth_amount ds))"
  using assms total_amount_cases [of ds 0]
  by (auto simp: distributeETH_def bind_def)

lemma distributeETH_effect:
  assumes ok: "distributeETH tokenId ds w = Inr w'"
    and T: "T = sum_list (map eth_amount ds)"
    and fee: "fee = T * executionFeePercentage (engine w) div 10000"
    and pos: "0 < T"
  shows "same_control w w'"
    and "transfers (ledger w') = transfers (ledger w)
          @ map (\<lambda>d. EthTransfer (this w) (eth_beneficiary d) (eth_amount d)) ds
          @ (if 0 < fee then [EthTransfer (this w) (feeRecipient (engine w)) fee] else [])"
    and "\<forall>x. x \<noteq> this w \<longrightarrow> eth (ledger w') x
           = eth (ledger w) x + eth_received ds x + (if x = feeRecipient (engine w) then fee else 0)"
    and "this w \<notin> eth_beneficiary ` set ds \<and> feeRecipient (engine w) \<noteq> this w \<longrightarrow>
           eth (ledger w') (this w) + T + fee = eth (ledger w) (this w)"
    and "T + fee \<le> eth (ledger w) (this w)"
    and "erc20 (ledger w') = erc20 (ledger w)" and "erc721 (ledger w') = erc721 (ledger w)"
    and "\<forall>d \<in> set ds. eth_beneficiary d \<noteq> 0 \<and> 0 < eth_amount d"
proof -
  have tot: "total_amount ds 0 = Inr T"
    using distributeETH_total [OF ok] T by simp
  from ok tot pos fee obtain w1 where
    pay: "pay_beneficiaries tokenId ds w = Inr w1" and
    bal: "T + fee \<le> eth (ledger w) (this w)" and
    last: "(if 0 < fee
            then bind (eth_transfer (this w1) (feeRecipient (engine w1)) fee (ledger w1))
                   (\<lambda>l. Inr (w1\<lparr>ledger := l\<rparr>))
            else Inr w1) = Inr w'"
    by (auto simp: distributeETH_def bind_def require_def checked_mul_def checked_add_def Let_def
        split: if_splits sum.splits)
  note p = pay_beneficiaries_effect [OF pay]
  have ctl: "this w1 = this w" "feeRecipient (engine w1) = feeRecipient (engine w)"
    using p by (simp_all add: same_control_def)
  show "T + fee \<le> eth (ledger w) (this w)" by (rule bal)
  show "\<forall>d \<in> set ds. eth_beneficiary d \<noteq> 0 \<and> 0 < eth_amount d"
    using p by blast
  show "same_control w w'"
    using last p by (auto simp: same_control_def bind_def split: if_splits sum.splits)
  show "transfers (ledger w') = transfers (ledger w)
          @ map (\<lambda>d. EthTransfer (this w) (eth_beneficiary d) (eth_amount d)) ds
          @ (if 0 < fee then [EthTransfer (this w) (feeRecipient (engine w)) fee] else [])"
    using last p ctl
    by (auto simp: bind_def eth_transfer_def Let_def split: if_splits sum.splits)
  show "erc20 (ledger w') = erc20 (ledger w)" "erc721 (ledger w') = erc721 (ledger w)"
    using last p
    by (auto simp: bind_def eth_transfer_def Let_def split: if_splits sum.splits)
  show "\<forall>x. x \<noteq> this w \<longrightarrow> eth (ledger w') x
           = eth (ledger w) x + eth_received ds x + (if x = feeRecipient (engine w) then fee else 0)"
    using last p ctl
    by (auto simp: bind_def eth_transfer_def Let_def split: if_splits sum.splits)
  show "this w \<notin> eth_beneficiary ` set ds \<and> feeRecipient (engine w) \<noteq> this w \<longrightarrow>
           eth (ledger w') (this w) + T + fee = eth (ledger w) (this w)"
  proof
    assume out: "this w \<notin> eth_beneficiary ` set ds \<and> feeRecipient (engine w) \<noteq> this w"
    with p have mid: "eth (ledger w1) (this w) + T = eth (ledger w) (this w)"
      using T by simp
    show "eth (ledger w') (this w) + T + fee = eth (ledger w) (this w)"
      using last mid out ctl
      by (auto simp: bind_def eth_transfer_def Let_def split: if_splits sum.splits)
  qed
qed

lemma total_amount_zero:
  "sum_list (map eth_amount ds) = 0 \<Longrightarrow> acc \<le> UINT256_MAX \<Longrightarrow> total_amount ds acc = Inr acc"
  by (induction ds arbitrary: acc) (simp_all add: checked_add_def)

lemma distributeETH_nothing:
  assumes "sum_list (map eth_amount ds) = 0"
  shows "distributeETH tokenId ds w = Inr w"
  using total_amount_zero [OF assms, of 0]
  by (simp add: distributeETH_def bind_def)

lemma distributeETH_rejects:
  assumes "\<exists>d \<in> set ds. eth_amount d = 0 \<or> eth_beneficiary d = 0"
    and "0 < sum_list (map eth_amount ds)"
  shows "\<exists>e. distributeETH tokenId ds w = Inl e"
proof (rule ccontr)
  assume "\<not> (\<exists>e. distributeETH tokenId ds w = Inl e)"
  then obtain w' where ok: "distributeETH tokenId ds w = Inr w'"
    by (cases "distributeETH tokenId ds w") auto
  from distributeETH_effect(8) [OF ok refl refl assms(2)] assms(1) show False
    by auto
qed

lemma erc20_transfer_Inr:
  "(erc20_transfer token src dst amount l = Inr r)
     = (dst \<noteq> 0 \<and> amount \<le> erc20 l token src \<and> r = (erc20_moved token src dst amount l, True))"
  by (auto simp: erc20_transfer_def erc20_moved_def Let_def)

lemma distributeERC20_entry_steps:
  assumes ok: "distributeERC20_entry tokenId d w = Inr w'"
    and fee: "fee = erc20_amount d * executionFeePercentage (engine w) div 10000"
  shows "erc20_beneficiary d \<noteq> 0" and "erc20_tokenContract d \<noteq> 0" and "0 < erc20_amount d"
    and "fee \<le> erc20_amount d"
    and "w' = emit (ERC20Distributed tokenId (erc20_beneficiary d) (erc20_tokenContract d)
                  (erc20_amount d - fee))
               (w\<lparr>ledger :=
                  (if 0 < fee
                   then erc20_moved (erc20_tokenContract d) (this w) (feeRecipient (engine w)) fee
                          (erc20_moved (erc20_tokenContract d) (this w) (erc20_beneficiary d)
                             (erc20_amount d - fee) (ledger w))
                   else erc20_moved (erc20_tokenContract d) (this w) (erc20_beneficiary d)
                          (erc20_amount d - fee) (ledger w))\<rparr>)"
  using ok unfolding fee distributeERC20_entry_def Let_def
  by (simp_all add: bind_Inr require_Inr checked_mul_Inr checked_sub_Inr erc20_transfer_Inr
      split: if_splits)

subsection \<open>Fungible and non-fungible passes\<close>

lemma erc20_moved_simps:
  "transfers (erc20_moved token src dst amount l)
     = transfers l @ [Erc20Transfer token src dst amount]"
  "eth (erc20_moved token src dst amount l) = eth l"
  "erc721 (erc20_moved token src dst amount l) = erc721 l"
  "x \<noteq> src \<Longrightarrow> erc20 (erc20_moved token src dst amount l) token x
     = erc20 l token x + (if x = dst then amount else 0)"
  by (simp_all add: erc20_moved_def)

lemma distributeERC20_entry_effect:
  assumes ok: "distributeERC20_entry tokenId d w = Inr w'"
    and fee: "fee = erc20_amount d * executionFeePercentage (engine w) div 10000"
  shows "same_control w w'"
    and "fee \<le> erc20_amount d"
    and "transfers (ledger w') = transfers (ledger w)
          @ Erc20Transfer (erc20_tokenContract d) (this w) (erc20_beneficiary d) (erc20_amount d - fee)
          # (if 0 < fee
             then [Erc20Transfer (erc20_tokenContract d) (this w) (feeRecipient (engine w)) fee]
             else [])"
    and "\<forall>x. x \<noteq> this w \<longrightarrow> erc20 (ledger w') (erc20_tokenContract d) x
           = erc20 (ledger w) (erc20_tokenContract d) x
             + (if x = erc20_beneficiary d then erc20_amount d - fee else 0)
             + (if x = feeRecipient (engine w) then fee else 0)"
    and "eth (ledger w') = eth (ledger w)" and "erc721 (ledger w') = erc721 (ledger w)"
proof -
  note st = distributeERC20_entry_steps [OF ok fee]
  show "fee \<le> erc20_amount d" by (rule st(4))
  show "same_control w w'"
    unfolding st(5) by (simp add: same_control_def emit_def)
  show "transfers (ledger w') = transfers (ledger w)
          @ Erc20Transfer (erc20_tokenContract d) (this w) (erc20_beneficiary d) (erc20_amount d - fee)
          # (if 0 < fee
             then [Erc20Transfer (erc20_tokenContract d) (this w) (feeRecipient (engine w)) fee]
             else [])"
    unfolding st(5) by (simp add: emit_def erc20_moved_simps)
  show "eth (ledger w') = eth (ledger w)" "erc721 (ledger w') = erc721 (ledger w)"
    unfolding st(5) by (simp_all add: emit_def erc20_moved_simps)
  show "\<forall>x. x \<noteq> this w \<longrightarrow> erc20 (ledger w') (erc20_tokenContract d) x
           = erc20 (ledger w) (erc20_tokenContract d) x
             + (if x = erc20_beneficiary d then erc20_amount d - fee else 0)
             + (if x = feeRecipient (engine w) then fee else 0)"
    unfolding st(5) by (simp add: emit_def erc20_moved_simps)
qed

lemma distributeERC20_effect:
  "distributeERC20 tokenId ds w = Inr w' \<Longrightarrow>
     same_control w w'
     \<and> transfers (ledger w') = transfers (ledger w) @ concat (map (\<lambda>d.
          Erc20Transfer (erc20_tokenContract d) (this w) (erc20_beneficiary d)
            (erc20_amount d - erc20_amount d * executionFeePercentage (engine w) div 10000)
          # (if 0 < erc20_amount d * executionFeePercentage (engine w) div 10000
             then [Erc20Transfer (erc20_tokenContract d) (this w) (feeRecipient (engine w))
                     (erc20_amount d * executionFeePercentage (engine w) div 10000)]
             else [])) ds)
     \<and> eth (ledger w') = eth (ledger w) \<and> erc721 (ledger w') = erc721 (ledger w)"
proof (induction ds arbitrary: w)
  case Nil
  then show ?case by (simp add: same_control_refl)
next
  case (Cons d ds)
  from Cons.prems obtain w1 where
    head: "distributeERC20_entry tokenId d w = Inr w1" and
    tail: "distributeERC20 tokenId ds w1 = Inr w'"
    by (auto split: sum.splits)
  note h = distributeERC20_entry_effect [OF head refl]
  note t = Cons.IH [OF tail]
  have ctl: "this w1 = this w" "feeRecipient (engine w1) = feeRecipient (engine w)"
    "executionFeePercentage (engine w1) = executionFeePercentage (engine w)"
    using h(1) by (simp_all add: same_control_def)
  have "same_control w w'"
    using h(1) t by (blast intro: same_control_trans)
  moreover have "eth (ledger w') = eth (ledger w)" "erc721 (ledger w') = erc721 (ledger w)"
    using h(5,6) t by simp_all
  moreover have "transfers (ledger w') = transfers (ledger w) @ concat (map (\<lambda>d.
          Erc20Transfer (erc20_tokenContract d) (this w) (erc20_beneficiary d)
            (erc20_amount d - erc20_amount d * executionFeePercentage (engine w) div 10000)
          # (if 0 < erc20_amount d * executionFeePercentage (engine w) div 10000
             then [Erc20Transfer (erc20_tokenContract d) (this w) (feeRecipient (engine w))
                     (erc20_amount d * executionFeePercentage (engine w) div 10000)]
             else [])) (d # ds))"
    using t h(3) unfolding ctl by simp
  ultimately show ?case by blast
qed

lemma erc721_ownerOf_Inr:
  "(erc721_ownerOf token assetId l = Inr holder)
     = (erc721 l token assetId \<noteq> 0 \<and> holder = erc721 l token assetId)"
  by (auto simp: erc721_ownerOf_def)

lemma erc721_safeTransferFrom_Inr:
  "(erc721_safeTransferFrom sender token src dst assetId l = Inr l')
     = (dst \<noteq> 0 \<and> erc721 l token assetId \<noteq> 0 \<and> erc721 l token assetId = sender
        \<and> erc721 l token assetId = src \<and> l' = erc721_moved token src dst assetId l)"
  by (auto simp: erc721_safeTransferFrom_def erc721_moved_def)

lemma distributeERC721_entry_effect:
  assumes ok: "distributeERC721_entry tokenId d w = Inr w'"
  shows "same_control w w'"
    and "transfers (ledger w') = transfers (ledger w)
          @ [Erc721Transfer (erc721_tokenContract d) (this w) (erc721_beneficiary d) (erc721_tokenId d)]"
    and "eth (ledger w') = eth (ledger w)" and "erc20 (ledger w') = erc20 (ledger w)"
    and "erc721 (ledger w) (erc721_tokenContract d) (erc721_tokenId d) = this w"
    and "erc721 (ledger w') (erc721_tokenContract d) (erc721_tokenId d) = erc721_beneficiary d"
  using ok unfolding distributeERC721_entry_def
  by (auto simp: bind_Inr require_Inr erc721_ownerOf_Inr erc721_safeTransferFrom_Inr
      erc721_moved_def emit_def same_control_def)

lemma distributeERC721_effect:
  "distributeERC721 tokenId ds w = Inr w' \<Longrightarrow>
     same_control w w'
     \<and> transfers (ledger w') = transfers (ledger w) @ map (\<lambda>d.
          Erc721Transfer (erc721_tokenContract d) (this w) (erc721_beneficiary d) (erc721_tokenId d)) ds
     \<and> eth (ledger w') = eth (ledger w) \<and> erc20 (ledger w') = erc20 (ledger w)"
proof (induction ds arbitrary: w)
  case Nil
  then show ?case by (simp add: same_control_refl)
next
  case (Cons d ds)
  from Cons.prems obtain w1 where
    head: "distributeERC721_entry tokenId d w = Inr w1" and
    tail: "distributeERC721 tokenId ds w1 = Inr w'"
    by (auto split: sum.splits)
  note h = distributeERC721_entry_effect [OF head]
  note t = Cons.IH [OF tail]
  have ctl: "this w1 = this w"
    using h(1) by (simp add: same_control_def)
  have "same_control w w'"
    using h(1) t by (blast intro: same_control_trans)
  moreover have "eth (ledger w') = eth (ledger w)" "erc20 (ledger w') = erc20 (ledger w)"
    using h(3,4) t by simp_all
  moreover have "transfers (ledger w') = transfers (ledger w) @ map (\<lambda>d.
          Erc721Transfer (erc721_tokenContract d) (this w) (erc721_beneficiary d) (erc721_tokenId d))
          (d # ds)"
    using t h(2) unfolding ctl by simp
  ultimately show ?case by blast
qed

lemma distributeETH_same_control:
  assumes "distributeETH tokenId ds w = Inr w'"
  shows "same_control w w'"
proof (cases "0 < sum_list (map eth_amount ds)")
  case True
  then show ?thesis
    by (rule distributeETH_effect(1) [OF assms refl refl])
next
  case False
  then have "sum_list (map eth_amount ds) = 0"
    by (simp only: not_gr_zero)
  from distributeETH_nothing [OF this, of tokenId w] assms show ?thesis
    by (simp add: same_control_refl)
qed

lemma executeDistributions_same_control:
  assumes "executeDistributions sender tokenId instructions w = Inr w'"
  shows "same_control w w'"
proof -
  from assms obtain w1 w2 where
    "distributeETH tokenId (ethDistributions instructions) w = Inr w1"
    "distributeERC20 tokenId (erc20Distributions instructions) w1 = Inr w2"
    "distributeERC721 tokenId (erc721Distributions instructions) w2 = Inr w'"
    by (auto simp: executeDistributions_def bind_Inr require_Inr)
  then show ?thesis
    using distributeETH_same_control distributeERC20_effect distributeERC721_effect
    by (blast intro: same_control_trans)
qed

section \<open>Properties of an execution attempt\<close>

lemma attempt_Inr:
  "((case m of
       Inr w2 \<Rightarrow> f w2
     | Inl (Revert reason) \<Rightarrow> Inl (g reason)
     | Inl _ \<Rightarrow> Inl h) = Inr w') = (\<exists>w2. m = Inr w2 \<and> f w2 = Inr w')"
  by (auto split: sum.splits error.splits)

lemma attempt_Inl:
  "m = Inl e \<Longrightarrow>
   \<exists>msg. (case m of
       Inr w2 \<Rightarrow> f w2
     | Inl (Revert reason) \<Rightarrow> Inl (Revert (g reason))
     | Inl _ \<Rightarrow> Inl (Revert h)) = Inl (Revert msg)"
  by (cases e) simp_all

lemma getExecutor_Inr:
  "(getExecutor tokenId s = Inr a) = (ownerExists s tokenId \<and> a = executor (wills s tokenId))"
  by (auto simp: getExecutor_def require_def)

lemma getIsExecuted_Inr:
  "(getIsExecuted tokenId s = Inr b) = (ownerExists s tokenId \<and> b = isExecuted (wills s tokenId))"
  by (auto simp: getIsExecuted_def require_def)

lemma canEmergencyExecute_True:
  "canEmergencyExecute now tokenId s = Inr True \<Longrightarrow>
     ownerExists s tokenId \<and> \<not> isExecuted (wills s tokenId)"
  by (auto simp: canEmergencyExecute_def split: if_splits)

lemma executeWillByContract_Inr:
  "(executeWillByContract sender now tokenId exec s = Inr s')
     = (ownerExists s tokenId \<and> authorizedContracts s sender \<and> executor (wills s tokenId) = exec
        \<and> \<not> isExecuted (wills s tokenId) \<and> s' = mark_executed tokenId exec now s)"
  by (auto simp: executeWillByContract_def require_Inr)

lemma emergencyExecuteWillByContract_Inr:
  "emergencyExecuteWillByContract sender now tokenId exec s = Inr s' \<Longrightarrow>
     ownerExists s tokenId \<and> \<not> isExecuted (wills s tokenId) \<and> s' = mark_executed tokenId exec now s"
  by (auto simp: emergencyExecuteWillByContract_def require_Inr bind_Inr)

lemma executeWill_success:
  assumes "executeWill sender now tokenId instructions w = Inr w'"
  obtains w2 where "same_control (mark_initiated sender tokenId w) w2"
    and "ownerExists (willsNFT w) tokenId"
    and "w' = mark_completed now tokenId
                (w2\<lparr>willsNFT := mark_executed tokenId sender now (willsNFT w2)\<rparr>)"
proof -
  from assms obtain w2 where
    d: "executeDistributions (this (mark_initiated sender tokenId w)) tokenId instructions
          (mark_initiated sender tokenId w) = Inr w2" and
    ex: "ownerExists (willsNFT w) tokenId" and
    r: "bind (executeWillByContract (this w2) now tokenId sender (willsNFT w2))
          (\<lambda>registry. Inr (mark_completed now tokenId (w2\<lparr>willsNFT := registry\<rparr>))) = Inr w'"
    unfolding executeWill_def Let_def
    by (auto simp: require_Inr bind_Inr attempt_Inr getExecutor_Inr getIsExecuted_Inr
        token_exists_def)
  from r have "w' = mark_completed now tokenId
                (w2\<lparr>willsNFT := mark_executed tokenId sender now (willsNFT w2)\<rparr>)"
    by (auto simp: bind_Inr executeWillByContract_Inr)
  with executeDistributions_same_control [OF d] ex that show thesis by blast
qed

lemma emergencyExecuteWill_success:
  assumes "emergencyExecuteWill sender now tokenId instructions w = Inr w'"
  obtains w2 where "same_control (mark_initiated sender tokenId w) w2"
    and "ownerExists (willsNFT w) tokenId"
    and "w' = mark_completed now tokenId
                (w2\<lparr>willsNFT := mark_executed tokenId sender now (willsNFT w2)\<rparr>)"
proof -
  from assms obtain w2 where
    d: "executeDistributions (this (mark_initiated sender tokenId w)) tokenId instructions
          (mark_initiated sender tokenId w) = Inr w2" and
    ex: "ownerExists (willsNFT w) tokenId" and
    r: "bind (emergencyExecuteWillByContract (this w2) now tokenId sender (willsNFT w2))
          (\<lambda>registry. Inr (mark_completed now tokenId (w2\<lparr>willsNFT := registry\<rparr>))) = Inr w'"
    unfolding emergencyExecuteWill_def Let_def
    by (auto simp: require_Inr bind_Inr attempt_Inr token_exists_def)
  from r have "w' = mark_completed now tokenId
                (w2\<lparr>willsNFT := mark_executed tokenId sender now (willsNFT w2)\<rparr>)"
    by (auto simp: bind_Inr dest: emergencyExecuteWillByContract_Inr)
  with executeDistributions_same_control [OF d] ex that show thesis by blast
qed



lemma world_body_frame:
  assumes "world_body entered sender now c w = Inr w'" and "\<not> acts_on_flags c"
  shows "willsNFT w' = willsNFT w"
    and "executionStatuses (engine w') = executionStatuses (engine w)"
proof -
  have "willsNFT w' = willsNFT w \<and> executionStatuses (engine w') = executionStatuses (engine w)"
  proof (cases c)
    case (ExecuteDistributions i x)
    with assms(1) executeDistributions_same_control [of sender i x w w'] show ?thesis
      by (simp add: same_control_def)
  qed (use assms in \<open>auto simp: acts_on_flags_def setExecutionFeePercentage_def
        setFeeRecipient_def withdrawBalance_def
        emergencyTokenRecovery_def receive_eth_def engine_transferOwnership_def
        engine_renounceOwnership_def require_Inr bind_Inr Let_def split: if_splits\<close>)
  then show "willsNFT w' = willsNFT w"
    and "executionStatuses (engine w') = executionStatuses (engine w)"
    by simp_all
qed

lemma lifted_hook:
  "world_onERC721Received now (map (\<lambda>(caller, c). (caller, Registry c)) hook) w
     = w\<lparr>willsNFT := onERC721Received now hook (willsNFT w)\<rparr>"
proof (induction hook arbitrary: w)
  case Nil
  show ?case by simp
next
  case (Cons call hook)
  obtain caller c where call: "call = (caller, c)" by (cases call)
  show ?case
  proof (cases "nft_body True caller now c (willsNFT w)")
    case (Inl e)
    with Cons.IH [of w] show ?thesis
      unfolding call by (simp add: bind_def)
  next
    case (Inr result)
    obtain s' r where result: "result = (s', r)" by (cases result)
    from Inr Cons.IH [of "w\<lparr>willsNFT := s'\<rparr>"] show ?thesis
      unfolding call result by (simp add: bind_def)
  qed
qed

lemma creation_in_the_world:
  "world_body False sender now
     (CreateWillFromContract hash exec delay (map (\<lambda>(caller, c). (caller, Registry c)) hook)
        accepted) w
     = world_body False sender now (Registry (CreateWill hash exec delay hook accepted)) w"
proof (cases "createWill_mint sender hash exec delay (willsNFT w)")
  case (Inl e)
  then show ?thesis by (simp add: createWill_halves bind_def)
next
  case (Inr minted)
  obtain s1 tokenId where "minted = (s1, tokenId)" by (cases minted)
  with Inr show ?thesis
    by (simp add: createWill_halves lifted_hook bind_def receiver_answer_def)
qed

lemma world_op_kinds:
  obtains (reg) r where "c = Registry r"
  | (cre) hash exec delay hook accepted where
      "c = CreateWillFromContract hash exec delay hook accepted"
  | (exe) i x where "c = EngineExecuteWill i x"
  | (eme) i x where "c = EngineEmergencyExecuteWill i x"
  | (other) "\<not> acts_on_flags c"
  by (cases c) (auto simp: acts_on_flags_def)

lemma world_hook_keeps:
  assumes "P w"
    and "\<And>sender c w w'. P w \<Longrightarrow> (sender, c) \<in> set hook
           \<Longrightarrow> world_body True sender now c w = Inr w' \<Longrightarrow> P w'"
  shows "P (world_onERC721Received now hook w)"
  using assms
proof (induction hook arbitrary: w)
  case Nil
  then show ?case by simp
next
  case (Cons call hook)
  obtain sender c where call: "call = (sender, c)" by (cases call)
  have tail: "P (world_onERC721Received now hook w0)" if "P w0" for w0
    using that
  proof (rule Cons.IH)
    show "P w''" if "P w'" "(a, b) \<in> set hook" "world_body True a now b w' = Inr w''"
      for a b w' w''
      using that Cons.prems(2) [of w' a b w''] by simp
  qed
  show ?case
  proof (cases "world_body True sender now c w")
    case (Inl e)
    with tail [OF Cons.prems(1)] show ?thesis
      unfolding call by simp
  next
    case (Inr w')
    have "P w'"
      using Cons.prems(2) [OF Cons.prems(1) _ Inr] call by simp
    from tail [OF this] Inr show ?thesis
      unfolding call by simp
  qed
qed

lemma world_create_cases:
  assumes "world_body False sender now (CreateWillFromContract hash exec delay hook accepted) w
             = Inr w'"
  obtains s1 w2 where
    "createWill_mint sender hash exec delay (willsNFT w) = Inr (s1, tokenIdCounter (willsNFT w))"
    "w2 = world_onERC721Received now hook (w\<lparr>willsNFT := s1\<rparr>)"
    "w' = w2\<lparr>willsNFT := createWill_record sender now (tokenIdCounter (willsNFT w)) hash exec
                               delay (willsNFT w2)\<rparr>"
proof -
  from assms obtain s1 tokenId where
    m: "createWill_mint sender hash exec delay (willsNFT w) = Inr (s1, tokenId)" and
    r: "bind (receiver_answer accepted (world_onERC721Received now hook (w\<lparr>willsNFT := s1\<rparr>)))
          (\<lambda>w2. Inr (w2\<lparr>willsNFT :=
                   createWill_record sender now tokenId hash exec delay (willsNFT w2)\<rparr>)) = Inr w'"
    by (auto simp: bind_Inr)
  from m have id: "tokenId = tokenIdCounter (willsNFT w)"
    by (simp add: createWill_mint_Inr)
  from r have "w' = (world_onERC721Received now hook (w\<lparr>willsNFT := s1\<rparr>))
      \<lparr>willsNFT := createWill_record sender now tokenId hash exec delay
         (willsNFT (world_onERC721Received now hook (w\<lparr>willsNFT := s1\<rparr>)))\<rparr>"
    by (auto simp: bind_Inr receiver_answer_def split: if_splits)
  with m id that show thesis by blast
qed





subsection \<open>The example world\<close>


lemmas engine_eval = executeDistributions_def distributeETH_def pay_beneficiary_def
  distributeERC20_entry_def distributeERC721_entry_def eth_transfer_def erc20_transfer_def
  erc20_balanceOf_def erc721_ownerOf_def erc721_safeTransferFrom_def
  mark_initiated_def mark_completed_def emit_def update_status_def
  require_def bind_def checked_add_def checked_mul_def checked_sub_def UINT256_MAX_def Let_def

lemma ready_world_facts:
  "this ready_world = 50" "ledger ready_world = genesis_ledger"
  "engine ready_world = engine deployed_world"
  "ownerExists (willsNFT ready_world) 0" "owners (willsNFT ready_world) 0 = 1"
  "executor (wills (willsNFT ready_world) 0) = 2"
  "\<not> isExecuted (wills (willsNFT ready_world) 0)"
  "authorizedContracts (willsNFT ready_world) 50"
  "lastUpdateAt (wills (willsNFT ready_world) 0) = 1000"
  "emergencyDelay (wills (willsNFT ready_world) 0) = 2592000"
  by (simp_all add: ready_world_def deployed_world_def transact_def eval_defs)

lemma deployed_engine_facts:
  "executionStatuses (engine deployed_world) tokenId = empty_status"
  "executionFeePercentage (engine deployed_world) = 100"
  "feeRecipient (engine deployed_world) = 7"
  by (simp_all add: deployed_world_def)

lemma overdrawn_fails:
  "executeDistributions 50 0 overdrawn (mark_initiated 2 0 ready_world)
     = Inl (Revert ''Insufficient ETH balance'')"
  by (simp add: executeDistributions_def distributeETH_def overdrawn_def mark_initiated_def
      emit_def update_status_def ready_world_facts deployed_engine_facts genesis_ledger_def
      require_def bind_def checked_add_def checked_mul_def UINT256_MAX_def Let_def)

lemma estate_eth:
  "\<exists>w'. distributeETH 0 (ethDistributions estate) ready_world = Inr w'
     \<and> eth (ledger w') 3 = 1000 \<and> eth (ledger w') 4 = 1000 \<and> eth (ledger w') 7 = 20
     \<and> eth (ledger w') 50 = 0"
  by (simp add: estate_def engine_eval ready_world_facts deployed_engine_facts genesis_ledger_def)

lemma estate_erc20:
  "\<exists>w'. distributeERC20_entry 0 (hd (erc20Distributions estate)) ready_world = Inr w'"
  by (simp add: estate_def engine_eval ready_world_facts deployed_engine_facts genesis_ledger_def)

lemma estate_erc721:
  "\<exists>w'. distributeERC721 0 (erc721Distributions estate) ready_world = Inr w'"
  by (simp add: estate_def engine_eval ready_world_facts deployed_engine_facts genesis_ledger_def)


lemma overdrawn_attempt_fails:
  "executeWill 2 3000 0 overdrawn ready_world
     = Inl (Revert ''Execution failed: Insufficient ETH balance'')"
  using overdrawn_fails
  by (simp add: executeWill_def ready_world_facts deployed_engine_facts token_exists_def
      getExecutor_def getIsExecuted_def empty_status_def require_def bind_def
      mark_initiated_def emit_def update_status_def Let_def)

subsection \<open>A failed attempt\<close>

text \<open>
  C1. Let one of the three distribution passes of an attempt on will \<open>tokenId\<close> fail:
  run in the state \<open>w1\<close> in which the attempt is marked as initiated, the native pass
  returns an error (as it does when the native total plus the fee exceeds the engine's
  balance), or it succeeds and the fungible pass returns an error, or both succeed and
  the non-fungible pass returns an error. Let no attempt be in flight or completed for
  the id. Then \<open>executeWill\<close>, called by the designated executor of a will that exists
  and is not executed, fails, and so does \<open>emergencyExecuteWill\<close>, called by anyone once
  \<open>canEmergencyExecute\<close> answers true. The state after either call is the state before
  it: the registry is untouched, so its execution function has marked nothing and the
  will is not executed; the status is not initiated; the ledger is the same, so no
  asset has moved; and \<open>canExecuteWill\<close> answers true.
\<close>

theorem failed_distribution_rolls_back:
  assumes started: "w1 = mark_initiated sender tokenId w"
    and pass_fails:
      "distributeETH tokenId (ethDistributions instructions) w1 = Inl e
       \<or> (\<exists>w2. distributeETH tokenId (ethDistributions instructions) w1 = Inr w2
            \<and> (distributeERC20 tokenId (erc20Distributions instructions) w2 = Inl e
                 \<or> (\<exists>w3. distributeERC20 tokenId (erc20Distributions instructions) w2 = Inr w3
                      \<and> distributeERC721 tokenId (erc721Distributions instructions) w3 = Inl e)))"
    and idle: "\<not> status_isExecuted (executionStatuses (engine w) tokenId)"
              "\<not> isInitiated (executionStatuses (engine w) tokenId)"
    and after: "w' = fst (transact (executeWill sender now tokenId instructions) w)"
               "w'' = fst (transact (emergencyExecuteWill sender now tokenId instructions) w)"
  shows
    "(token_exists tokenId (willsNFT w) \<and> executor (wills (willsNFT w) tokenId) = sender
        \<and> \<not> isExecuted (wills (willsNFT w) tokenId)
      \<longrightarrow> (\<exists>msg. executeWill sender now tokenId instructions w = Inl (Revert msg))
          \<and> w' = w \<and> willsNFT w' = willsNFT w \<and> ledger w' = ledger w
          \<and> \<not> isExecuted (wills (willsNFT w') tokenId)
          \<and> \<not> isInitiated (getExecutionStatus tokenId w')
          \<and> canExecuteWill tokenId w' = Inr True)
     \<and> (token_exists tokenId (willsNFT w) \<and> canEmergencyExecute now tokenId (willsNFT w) = Inr True
      \<longrightarrow> (\<exists>msg. emergencyExecuteWill sender now tokenId instructions w = Inl (Revert msg))
          \<and> w'' = w \<and> willsNFT w'' = willsNFT w \<and> ledger w'' = ledger w
          \<and> \<not> isExecuted (wills (willsNFT w'') tokenId)
          \<and> \<not> isInitiated (getExecutionStatus tokenId w'')
          \<and> canExecuteWill tokenId w'' = Inr True)"
proof (intro conjI impI)
  have init: "this (mark_initiated sender tokenId w) = this w"
    by (simp add: mark_initiated_def emit_def update_status_def)
  have fails: "executeDistributions (this w) tokenId instructions
                 (mark_initiated sender tokenId w) = Inl e"
    using pass_fails unfolding started
    by (auto simp: executeDistributions_def require_def bind_def init)
  {
    assume g: "token_exists tokenId (willsNFT w) \<and> executor (wills (willsNFT w) tokenId) = sender
        \<and> \<not> isExecuted (wills (willsNFT w) tokenId)"
    then have ex: "ownerExists (willsNFT w) tokenId" by (simp add: token_exists_def)
    have body: "executeWill sender now tokenId instructions w
        = (case executeDistributions (this w) tokenId instructions (mark_initiated sender tokenId w) of
             Inr w2 \<Rightarrow>
               bind (executeWillByContract (this w2) now tokenId sender (willsNFT w2)) (\<lambda>registry.
               Inr (mark_completed now tokenId (w2\<lparr>willsNFT := registry\<rparr>)))
           | Inl (Revert reason) \<Rightarrow> Inl (Revert (''Execution failed: '' @ reason))
           | Inl _ \<Rightarrow> Inl (Revert ''Execution failed with unknown error''))"
      using g ex idle
      by (simp add: executeWill_def getExecutor_def getIsExecuted_def require_def bind_def init
          Let_def split: sum.splits error.splits)
    show r: "\<exists>msg. executeWill sender now tokenId instructions w = Inl (Revert msg)"
      unfolding body using fails by (rule attempt_Inl)
    then show same: "w' = w" by (auto simp: after transact_def)
    show "willsNFT w' = willsNFT w" "ledger w' = ledger w"
      unfolding same by simp_all
    show "\<not> isExecuted (wills (willsNFT w') tokenId)"
      unfolding same using g by simp
    show "\<not> isInitiated (getExecutionStatus tokenId w')"
      unfolding same using idle by (simp add: getExecutionStatus_def)
    show "canExecuteWill tokenId w' = Inr True"
      unfolding same using g ex idle
      by (simp add: canExecuteWill_def getIsExecuted_def require_def bind_def)
  }
  {
    assume g: "token_exists tokenId (willsNFT w)
        \<and> canEmergencyExecute now tokenId (willsNFT w) = Inr True"
    then have ex: "ownerExists (willsNFT w) tokenId" by (simp add: token_exists_def)
    have fresh: "\<not> isExecuted (wills (willsNFT w) tokenId)"
      using g canEmergencyExecute_True by blast
    have body: "emergencyExecuteWill sender now tokenId instructions w
        = (case executeDistributions (this w) tokenId instructions (mark_initiated sender tokenId w) of
             Inr w2 \<Rightarrow>
               bind (emergencyExecuteWillByContract (this w2) now tokenId sender (willsNFT w2))
                 (\<lambda>registry. Inr (mark_completed now tokenId (w2\<lparr>willsNFT := registry\<rparr>)))
           | Inl (Revert reason) \<Rightarrow> Inl (Revert (''Emergency execution failed: '' @ reason))
           | Inl _ \<Rightarrow> Inl (Revert ''Emergency execution failed with unknown error''))"
      using g idle
      by (simp add: emergencyExecuteWill_def require_def bind_def init Let_def
          split: sum.splits error.splits)
    show r: "\<exists>msg. emergencyExecuteWill sender now tokenId instructions w = Inl (Revert msg)"
      unfolding body using fails by (rule attempt_Inl)
    then show same: "w'' = w" by (auto simp: after transact_def)
    show "willsNFT w'' = willsNFT w" "ledger w'' = ledger w"
      unfolding same by simp_all
    show "\<not> isExecuted (wills (willsNFT w'') tokenId)"
      unfolding same using fresh by simp
    show "\<not> isInitiated (getExecutionStatus tokenId w'')"
      unfolding same using idle by (simp add: getExecutionStatus_def)
    show "canExecuteWill tokenId w'' = Inr True"
      unfolding same using fresh ex idle
      by (simp add: canExecuteWill_def getIsExecuted_def require_def bind_def token_exists_def)
  }
qed

theorem failed_distribution_rolls_back_witness:
  "distributeETH 0 (ethDistributions overdrawn) (mark_initiated 2 0 ready_world)
     = Inl (Revert ''Insufficient ETH balance'')
   \<and> fst (transact (executeWill 2 3000 0 overdrawn) ready_world) = ready_world
   \<and> canExecuteWill 0 ready_world = Inr True
   \<and> canEmergencyExecute 2600000 0 (willsNFT ready_world) = Inr True
   \<and> fst (transact (emergencyExecuteWill 4 2600000 0 overdrawn) ready_world) = ready_world"
proof -
  have refused: "distributeETH 0 (ethDistributions overdrawn) (mark_initiated s 0 ready_world)
     = Inl (Revert ''Insufficient ETH balance'')" for s
    by (simp add: distributeETH_def overdrawn_def mark_initiated_def
      emit_def update_status_def ready_world_facts deployed_engine_facts genesis_ledger_def
      require_def bind_def checked_add_def checked_mul_def UINT256_MAX_def Let_def)
  have idle: "\<not> status_isExecuted (executionStatuses (engine ready_world) 0)"
      "\<not> isInitiated (executionStatuses (engine ready_world) 0)"
    by (simp_all add: ready_world_facts deployed_engine_facts empty_status_def)
  have ready: "canEmergencyExecute 2600000 0 (willsNFT ready_world) = Inr True"
    by (simp add: canEmergencyExecute_def emergency_deadline_def checked_add_def bind_def
        ready_world_facts UINT256_MAX_def)
  have guards: "token_exists 0 (willsNFT ready_world)
      \<and> executor (wills (willsNFT ready_world) 0) = 2
      \<and> \<not> isExecuted (wills (willsNFT ready_world) 0)"
    by (simp add: token_exists_def ready_world_facts)
  from failed_distribution_rolls_back [where sender = 2 and now = 3000, OF refl disjI1 [OF refused] idle refl refl] guards
  have a: "fst (transact (executeWill 2 3000 0 overdrawn) ready_world) = ready_world"
    and b: "canExecuteWill 0 ready_world = Inr True"
    by auto
  from failed_distribution_rolls_back [where sender = 4 and now = 2600000, OF refl disjI1 [OF refused] idle refl refl] guards ready
  have c: "fst (transact (emergencyExecuteWill 4 2600000 0 overdrawn) ready_world) = ready_world"
    by auto
  from a b c ready refused [of 2] show ?thesis
    by simp
qed

subsection \<open>The two executed flags\<close>




text \<open>
  The runs left out do part the two flags. In \<open>reentered_world\<close> the creator of will 0
  is a contract that calls the engine's \<open>emergencyExecuteWill\<close> for token 0 when
  \<^verbatim>\<open>_safeMint\<close> calls it: the token exists, the record is still empty, so its deadline
  \<open>0 + 0\<close> has passed, and the engine marks the will and the status executed; then the
  second half of \<open>createWill\<close> writes the record and sets its flag to false.
\<close>

lemma receiver_execution_parts_the_flags:
  "receiver_executes (CreateWillFromContract ''QmWill'' 2 2592000
                        [(1, EngineEmergencyExecuteWill 0 no_distribution)] True)"
  "status_isExecuted (getExecutionStatus 0 reentered_world)"
  "\<not> isExecuted (wills (willsNFT reentered_world) 0)"
  by (simp_all add: receiver_executes_def is_execution_def reentered_world_def deployed_world_def
      no_distribution_def transact_def getExecutionStatus_def emergencyExecuteWill_def
      canEmergencyExecute_def token_exists_def emergencyExecuteWillByContract_def
      genesis_ledger_def empty_status_def receiver_answer_def engine_eval eval_defs)

subsection \<open>Fees and the order of payments\<close>

lemma sum_list_filter_zero:
  "sum_list (map f xs) = (0::nat) \<Longrightarrow> sum_list (map f (filter P xs)) = 0"
  by (induction xs) auto

text \<open>
  C4. Let \<open>r\<close> be the fee rate in basis points and \<open>recipient\<close> the fee recipient.

  A native pass over entries that total \<open>T\<close>, when it succeeds, makes these transfers
  and no other: nothing when \<open>T = 0\<close>; otherwise to each beneficiary the amount of its
  entry, in the order of the entries, and then \<open>T * r div 10000\<close> to the fee recipient
  when that is positive. Every account but the engine ends with what it had, plus the
  amounts of the entries that name it, plus the fee if it is the fee recipient; the
  engine, when it is not paid itself, ends with \<open>T\<close> plus the fee less: the fee is paid
  on top of the requested amounts, not out of them.

  A fungible entry of amount \<open>a\<close>, when it succeeds, transfers \<open>a - a * r div 10000\<close> of
  the token to the beneficiary and then \<open>a * r div 10000\<close> to the fee recipient when that
  is positive; the balances of the token change by these amounts, and no native
  currency moves. A fungible pass makes these transfers entry by entry.

  A non-fungible pass, when it succeeds, transfers each asset to its beneficiary and
  nothing else: no native currency and no fungible token moves, so no fee is taken.
\<close>

theorem fee_computation:
  assumes r: "r = executionFeePercentage (engine w)"
    and recipient: "recipient = feeRecipient (engine w)"
    and T: "T = sum_list (map eth_amount ds)"
    and a: "a = erc20_amount d"
  shows
    "(distributeETH tokenId ds w = Inr w' \<longrightarrow>
        transfers (ledger w') = transfers (ledger w)
          @ (if T = 0 then []
             else map (\<lambda>d. EthTransfer (this w) (eth_beneficiary d) (eth_amount d)) ds
                  @ (if 0 < T * r div 10000
                     then [EthTransfer (this w) recipient (T * r div 10000)] else []))
        \<and> (\<forall>x. x \<noteq> this w \<longrightarrow> eth (ledger w') x
              = eth (ledger w) x
                + sum_list (map eth_amount (filter (\<lambda>d. eth_beneficiary d = x) ds))
                + (if x = recipient then T * r div 10000 else 0))
        \<and> (this w \<notin> eth_beneficiary ` set ds \<and> recipient \<noteq> this w \<longrightarrow>
              eth (ledger w') (this w) + T + T * r div 10000 = eth (ledger w) (this w)))
     \<and> (distributeERC20_entry tokenId d w = Inr w' \<longrightarrow>
        transfers (ledger w') = transfers (ledger w)
          @ Erc20Transfer (erc20_tokenContract d) (this w) (erc20_beneficiary d) (a - a * r div 10000)
          # (if 0 < a * r div 10000
             then [Erc20Transfer (erc20_tokenContract d) (this w) recipient (a * r div 10000)]
             else [])
        \<and> (\<forall>x. x \<noteq> this w \<longrightarrow> erc20 (ledger w') (erc20_tokenContract d) x
              = erc20 (ledger w) (erc20_tokenContract d) x
                + (if x = erc20_beneficiary d then a - a * r div 10000 else 0)
                + (if x = recipient then a * r div 10000 else 0))
        \<and> eth (ledger w') = eth (ledger w))
     \<and> (distributeERC20 tokenId tokens w = Inr w' \<longrightarrow>
        transfers (ledger w') = transfers (ledger w) @ concat (map (\<lambda>d.
          Erc20Transfer (erc20_tokenContract d) (this w) (erc20_beneficiary d)
            (erc20_amount d - erc20_amount d * r div 10000)
          # (if 0 < erc20_amount d * r div 10000
             then [Erc20Transfer (erc20_tokenContract d) (this w) recipient
                     (erc20_amount d * r div 10000)]
             else [])) tokens)
        \<and> eth (ledger w') = eth (ledger w))
     \<and> (distributeERC721 tokenId nfts w = Inr w' \<longrightarrow>
        transfers (ledger w') = transfers (ledger w) @ map (\<lambda>d.
          Erc721Transfer (erc721_tokenContract d) (this w) (erc721_beneficiary d) (erc721_tokenId d))
          nfts
        \<and> eth (ledger w') = eth (ledger w) \<and> erc20 (ledger w') = erc20 (ledger w))"
proof (intro conjI impI)
  {
    assume ok: "distributeETH tokenId ds w = Inr w'"
    show "transfers (ledger w') = transfers (ledger w)
          @ (if T = 0 then []
             else map (\<lambda>d. EthTransfer (this w) (eth_beneficiary d) (eth_amount d)) ds
                  @ (if 0 < T * r div 10000
                     then [EthTransfer (this w) recipient (T * r div 10000)] else []))"
    proof (cases "0 < T")
      case True
      with distributeETH_effect(2) [OF ok T refl True] show ?thesis
        unfolding r recipient by simp
    next
      case False
      then have "sum_list (map eth_amount ds) = 0" using T by simp
      from distributeETH_nothing [OF this, of tokenId w] ok False show ?thesis by simp
    qed
    show "\<forall>x. x \<noteq> this w \<longrightarrow> eth (ledger w') x
              = eth (ledger w) x
                + sum_list (map eth_amount (filter (\<lambda>d. eth_beneficiary d = x) ds))
                + (if x = recipient then T * r div 10000 else 0)"
    proof (cases "0 < T")
      case True
      with distributeETH_effect(3) [OF ok T refl True] show ?thesis
        unfolding r recipient by (simp add: eth_received_def)
    next
      case False
      then have zero: "sum_list (map eth_amount ds) = 0" using T by simp
      from distributeETH_nothing [OF zero, of tokenId w] ok have "w' = w" by simp
      with False sum_list_filter_zero [OF zero] show ?thesis by simp
    qed
    show "eth (ledger w') (this w) + T + T * r div 10000 = eth (ledger w) (this w)"
      if "this w \<notin> eth_beneficiary ` set ds \<and> recipient \<noteq> this w"
    proof (cases "0 < T")
      case True
      with distributeETH_effect(4) [OF ok T refl True] that show ?thesis
        unfolding r recipient by simp
    next
      case False
      then have zero: "sum_list (map eth_amount ds) = 0" using T by simp
      from distributeETH_nothing [OF zero, of tokenId w] ok have "w' = w" by simp
      with False show ?thesis by simp
    qed
  }
  {
    assume ok: "distributeERC20_entry tokenId d w = Inr w'"
    note e = distributeERC20_entry_effect [OF ok refl]
    show "transfers (ledger w') = transfers (ledger w)
          @ Erc20Transfer (erc20_tokenContract d) (this w) (erc20_beneficiary d) (a - a * r div 10000)
          # (if 0 < a * r div 10000
             then [Erc20Transfer (erc20_tokenContract d) (this w) recipient (a * r div 10000)]
             else [])"
      using e(3) unfolding r recipient a by simp
    show "\<forall>x. x \<noteq> this w \<longrightarrow> erc20 (ledger w') (erc20_tokenContract d) x
              = erc20 (ledger w) (erc20_tokenContract d) x
                + (if x = erc20_beneficiary d then a - a * r div 10000 else 0)
                + (if x = recipient then a * r div 10000 else 0)"
      using e(4) unfolding r recipient a by simp
    show "eth (ledger w') = eth (ledger w)" by (rule e(5))
  }
  {
    assume ok: "distributeERC20 tokenId tokens w = Inr w'"
    from distributeERC20_effect [OF ok]
    show "transfers (ledger w') = transfers (ledger w) @ concat (map (\<lambda>d.
          Erc20Transfer (erc20_tokenContract d) (this w) (erc20_beneficiary d)
            (erc20_amount d - erc20_amount d * r div 10000)
          # (if 0 < erc20_amount d * r div 10000
             then [Erc20Transfer (erc20_tokenContract d) (this w) recipient
                     (erc20_amount d * r div 10000)]
             else [])) tokens)"
      and "eth (ledger w') = eth (ledger w)"
      unfolding r recipient by simp_all
  }
  {
    assume ok: "distributeERC721 tokenId nfts w = Inr w'"
    from distributeERC721_effect [OF ok]
    show "transfers (ledger w') = transfers (ledger w) @ map (\<lambda>d.
          Erc721Transfer (erc721_tokenContract d) (this w) (erc721_beneficiary d) (erc721_tokenId d))
          nfts"
      and "eth (ledger w') = eth (ledger w)" and "erc20 (ledger w') = erc20 (ledger w)"
      by simp_all
  }
qed

theorem fee_computation_witness:
  "(\<exists>w'. distributeETH 0 (ethDistributions estate) ready_world = Inr w'
      \<and> transfers (ledger w') = [EthTransfer 50 3 1000, EthTransfer 50 4 1000, EthTransfer 50 7 20]
      \<and> eth (ledger w') 3 = 1000 \<and> eth (ledger w') 4 = 1000 \<and> eth (ledger w') 7 = 20
      \<and> eth (ledger w') 50 = 0)
   \<and> (\<exists>w'. distributeERC20_entry 0 (hd (erc20Distributions estate)) ready_world = Inr w'
      \<and> transfers (ledger w') = [Erc20Transfer 60 50 3 495, Erc20Transfer 60 50 7 5]
      \<and> erc20 (ledger w') 60 3 = 495 \<and> erc20 (ledger w') 60 7 = 5)
   \<and> (\<exists>w'. distributeERC721 0 (erc721Distributions estate) ready_world = Inr w'
      \<and> transfers (ledger w') = [Erc721Transfer 70 50 4 5]
      \<and> eth (ledger w') = eth (ledger ready_world))"
proof -
  obtain w1 where e1: "distributeETH 0 (ethDistributions estate) ready_world = Inr w1"
    using estate_eth by blast
  obtain w2 where e2: "distributeERC20_entry 0 (hd (erc20Distributions estate)) ready_world = Inr w2"
    using estate_erc20 by blast
  obtain w3 where e3: "distributeERC721 0 (erc721Distributions estate) ready_world = Inr w3"
    using estate_erc721 by blast
  note t = fee_computation [where tokenId = 0 and w = ready_world, OF refl refl refl refl]
  have "transfers (ledger w1) = [EthTransfer 50 3 1000, EthTransfer 50 4 1000, EthTransfer 50 7 20]
      \<and> eth (ledger w1) 3 = 1000 \<and> eth (ledger w1) 4 = 1000 \<and> eth (ledger w1) 7 = 20
      \<and> eth (ledger w1) 50 = 0"
    using t [where ds = "ethDistributions estate" and w' = w1] e1
    by (simp add: estate_def ready_world_facts deployed_engine_facts genesis_ledger_def)
  moreover have "transfers (ledger w2) = [Erc20Transfer 60 50 3 495, Erc20Transfer 60 50 7 5]
      \<and> erc20 (ledger w2) 60 3 = 495 \<and> erc20 (ledger w2) 60 7 = 5"
    using t [where d = "hd (erc20Distributions estate)" and w' = w2] e2
    by (simp add: estate_def ready_world_facts deployed_engine_facts genesis_ledger_def)
  moreover have "transfers (ledger w3) = [Erc721Transfer 70 50 4 5]
      \<and> eth (ledger w3) = eth (ledger ready_world)"
    using t [where nfts = "erc721Distributions estate" and w' = w3] e3
    by (simp add: estate_def ready_world_facts deployed_engine_facts genesis_ledger_def)
  ultimately show ?thesis
    using e1 e2 e3 by blast
qed

text \<open>
  What the native pass does right. Let \<open>T\<close> be the total of the amounts of a native
  pass and \<open>fee\<close> be \<open>T * executionFeePercentage div 10000\<close>. When \<open>T\<close> is positive
  and an entry has amount zero or the null beneficiary, the pass fails, and with it
  \<open>executeDistributions\<close> for any instruction with these native entries. When \<open>T\<close> is
  positive and the pass succeeds, it has paid the beneficiaries in the order of the
  instruction and then, only when the fee is positive, the fee to the fee recipient.
\<close>

lemma native_pass_with_positive_total:
  assumes T: "T = sum_list (map eth_amount ds)"
    and fee: "fee = T * executionFeePercentage (engine w) div 10000"
    and positive: "0 < T"
  shows
    "(\<exists>d \<in> set ds. eth_amount d = 0 \<or> eth_beneficiary d = 0)
        \<longrightarrow> (\<exists>e. distributeETH tokenId ds w = Inl e)
            \<and> (ethDistributions instructions = ds
                 \<longrightarrow> (\<exists>e. executeDistributions sender tokenId instructions w = Inl e))"
    and "distributeETH tokenId ds w = Inr w'
        \<longrightarrow> transfers (ledger w') = transfers (ledger w)
              @ map (\<lambda>d. EthTransfer (this w) (eth_beneficiary d) (eth_amount d)) ds
              @ (if 0 < fee then [EthTransfer (this w) (feeRecipient (engine w)) fee] else [])"
proof -
  show "(\<exists>d \<in> set ds. eth_amount d = 0 \<or> eth_beneficiary d = 0)
        \<longrightarrow> (\<exists>e. distributeETH tokenId ds w = Inl e)
            \<and> (ethDistributions instructions = ds
                 \<longrightarrow> (\<exists>e. executeDistributions sender tokenId instructions w = Inl e))"
  proof (intro impI conjI)
    assume bad: "\<exists>d \<in> set ds. eth_amount d = 0 \<or> eth_beneficiary d = 0"
    then show rej: "\<exists>e. distributeETH tokenId ds w = Inl e"
      using distributeETH_rejects [of ds tokenId w] positive unfolding T by blast
    show "\<exists>e. executeDistributions sender tokenId instructions w = Inl e"
      if "ethDistributions instructions = ds"
      using rej that by (auto simp: executeDistributions_def require_def bind_def)
  qed
  show "distributeETH tokenId ds w = Inr w'
        \<longrightarrow> transfers (ledger w') = transfers (ledger w)
              @ map (\<lambda>d. EthTransfer (this w) (eth_beneficiary d) (eth_amount d)) ds
              @ (if 0 < fee then [EthTransfer (this w) (feeRecipient (engine w)) fee] else [])"
    using distributeETH_effect(2) [OF _ T fee positive] by blast
qed

text \<open>
  C7. An entry of the native pass with the null beneficiary or amount zero is to fail
  the pass, and the attempt with it. The pass has the two checks for it (lines 183-184),
  and they do reject such an entry when it follows a payable one (second line below),
  as the checks of the fungible and the non-fungible pass do for their entries (third
  and fourth line). But the pass returns at line 170 when the amounts total zero, before
  it reaches its checks: a pass whose only entry has the null beneficiary and amount
  zero succeeds (first line), and the attempt with it: the will is marked executed and
  nothing is transferred (last three lines).
\<close>

theorem zero_total_skips_validation:
  "distributeETH 0 [\<lparr>eth_beneficiary = 0, eth_amount = 0\<rparr>] ready_world = Inr ready_world
   \<and> distributeETH 0 flawed_payout ready_world = Inl (Revert ''Invalid beneficiary address'')
   \<and> distributeERC20 0 [\<lparr>erc20_beneficiary = 0, erc20_tokenContract = 60, erc20_amount = 0\<rparr>]
       ready_world = Inl (Revert ''Invalid beneficiary address'')
   \<and> distributeERC721 0 [\<lparr>erc721_beneficiary = 0, erc721_tokenContract = 70, erc721_tokenId = 5\<rparr>]
       ready_world = Inl (Revert ''Invalid beneficiary address'')
   \<and> executeWill 2 3000 0 void_instruction ready_world = Inr void_world
   \<and> isExecuted (wills (willsNFT void_world) 0)
   \<and> transfers (ledger void_world) = []"
  by (simp add: void_world_def transact_def executeWill_def void_instruction_def flawed_payout_def
      engine_eval ready_world_facts deployed_engine_facts genesis_ledger_def token_exists_def
      getExecutor_def getIsExecuted_def empty_status_def executeWillByContract_def
      mark_executed_def)

subsection \<open>The failure reason\<close>

text \<open>
  C9. The executor's attempt with \<open>overdrawn\<close> fails and is reported to the caller as
  \<open>Execution failed: Insufficient ETH balance\<close>. The catch block has written that
  reason into the status (last line), but the revert that reports the failure undoes
  the write: in the state after the call the status of will 0 has an empty
  \<open>failureReason\<close>.
\<close>

theorem failure_reason_lost_on_revert:
  "executeWill 2 3000 0 overdrawn ready_world
     = Inl (Revert ''Execution failed: Insufficient ETH balance'')
   \<and> failureReason (getExecutionStatus 0 (fst (transact (executeWill 2 3000 0 overdrawn) ready_world)))
     = []
   \<and> failureReason (getExecutionStatus 0
        (record_failure 0 ''Insufficient ETH balance'' (mark_initiated 2 0 ready_world)))
     = ''Insufficient ETH balance''"
proof -
  note fails = overdrawn_attempt_fails
  from fails show ?thesis
    by (simp add: transact_def getExecutionStatus_def ready_world_facts deployed_engine_facts
        empty_status_def record_failure_def mark_initiated_def emit_def update_status_def)
qed

lemma body_never_recorded:
  assumes inv: "never_recorded w"
    and body: "world_body entered sender now c w = Inr w'"
    and hook: "\<And>hash exec delay hook accepted s1.
        \<not> entered \<Longrightarrow> c = CreateWillFromContract hash exec delay hook accepted
        \<Longrightarrow> never_recorded (world_onERC721Received now hook (w\<lparr>willsNFT := s1\<rparr>))"
  shows "never_recorded w'"
proof -
  have completed: "never_recorded w'"
    if "same_control (mark_initiated sender i w) w2"
      and "w' = mark_completed now i (w2\<lparr>willsNFT := mark_executed i sender now (willsNFT w2)\<rparr>)"
    for i w2
    using inv that
    by (simp add: never_recorded_def same_control_def mark_initiated_def mark_completed_def
        emit_def update_status_def)
  show ?thesis
  proof (cases c rule: world_op_kinds)
    case (reg r)
    with body inv show ?thesis
      by (auto simp: bind_Inr never_recorded_def)
  next
    case (cre hash exec delay hook accepted)
    show ?thesis
    proof (cases entered)
      case True
      with body cre show ?thesis by simp
    next
      case False
      from body have "world_body False sender now
          (CreateWillFromContract hash exec delay hook accepted) w = Inr w'"
        unfolding cre using False by simp
      then obtain s1 w2 where
        w2: "w2 = world_onERC721Received now hook (w\<lparr>willsNFT := s1\<rparr>)" and
        w': "w' = w2\<lparr>willsNFT := createWill_record sender now (tokenIdCounter (willsNFT w)) hash
                                    exec delay (willsNFT w2)\<rparr>"
        by (rule world_create_cases)
      from hook [OF False cre, of s1] show ?thesis
        unfolding w' w2 by (simp add: never_recorded_def)
    qed
  next
    case (exe i x)
    with body have "executeWill sender now i x w = Inr w'" by simp
    then show ?thesis
      using completed by (elim executeWill_success) simp
  next
    case (eme i x)
    with body have "emergencyExecuteWill sender now i x w = Inr w'" by simp
    then show ?thesis
      using completed by (elim emergencyExecuteWill_success) simp
  next
    case other
    from world_body_frame [OF body other] inv show ?thesis
      by (simp add: never_recorded_def)
  qed
qed

lemma hook_never_recorded:
  "never_recorded w \<Longrightarrow> never_recorded (world_onERC721Received now hook w)"
proof (erule world_hook_keeps)
  show "never_recorded w'"
    if "never_recorded w0" and "world_body True sender now c w0 = Inr w'" for sender c w0 w'
    using that by (rule body_never_recorded) simp
qed

lemma step_never_recorded:
  assumes inv: "never_recorded w"
  shows "never_recorded (world_step call w)"
proof (cases call)
  case (fields sender now c)
  show ?thesis
  proof (cases "world_body False sender now c w")
    case (Inl e)
    with fields inv show ?thesis by (simp add: transact_def)
  next
    case (Inr w')
    then have step: "world_step call w = w'"
      using fields by (simp add: transact_def)
    have "never_recorded (w\<lparr>willsNFT := s1\<rparr>)" for s1
      using inv by (simp add: never_recorded_def)
    then have "never_recorded w'"
      using inv Inr hook_never_recorded by (intro body_never_recorded [OF inv Inr]) blast
    with step show ?thesis by simp
  qed
qed

text \<open>
  The same holds in general: in no state reached from the deployment, by whatever
  calls, creations whose receiver calls back included, does any status hold a failure
  reason.
\<close>

lemma failure_reason_never_recorded:
  assumes "deploy_World registry engineDeployer engineAddress recipient l = Inr w0"
  shows "failureReason (getExecutionStatus tokenId (world_run calls w0)) = []"
proof -
  have "never_recorded w0"
    using assms
    by (auto simp: deploy_World_def deploy_WillExecutor_def bind_Inr require_Inr
        never_recorded_def empty_status_def)
  then have "never_recorded (world_run calls w0)"
    by (induction calls arbitrary: w0) (simp_all add: step_never_recorded del: world_step.simps)
  then show ?thesis
    by (simp add: never_recorded_def getExecutionStatus_def)
qed

end
